theory Spec2Isabelle
  imports Complex_Main "HOL-Library.List_Lexorder" "HOL-Library.Char_ord"
    "HOL-Library.Product_Lexorder" "HOL-Library.Code_Target_Numeral"
begin

section \<open>Cells, frames and the object store\<close>

text \<open>
  The programs under study are the cleaning routines of \<^verbatim>\<open>preprocessing.py\<close>
  (class \<^verbatim>\<open>AadhaarDataPreprocessor\<close>) and the analysis routines of
  \<^verbatim>\<open>analysis.py\<close> (class \<^verbatim>\<open>AadhaarAnalyzer\<close> and two module functions).
  They work on pandas data frames. A frame is modelled by its list of column names and
  its list of rows; a row gives a cell for every column name. A cell of an integer
  column is a 64-bit integer (\<open>IntV\<close>); a cell of a float column is a binary64 value: a
  number (\<open>NumV\<close>, the rational it stands for), an infinity, or not-a-number, which is
  also what a missing cell is (\<open>NA\<close>). Texts are strings of characters with codes below
  128.
\<close>

record date =
  dt_year :: nat
  dt_month :: nat
  dt_day :: nat

datatype cell =
    StrV string
  | IntV int
  | NumV rat
  | PosInf
  | NegInf
  | DtV date
  | NA

datatype error =
    KeyError string
  | IndexError
  | ValueError
  | TypeError
  | AttributeError

type_synonym row = "string \<Rightarrow> cell"

record dataframe =
  columns :: "string list"
  rows :: "row list"

text \<open>
  Conversions of the library whose result the repository's code does not determine
  are parameters of the model: the text \<^verbatim>\<open>astype(str)\<close> gives for a float or a date,
  and the number \<^verbatim>\<open>pd.to_numeric\<close> reads from a text or a date (a missing cell when it
  cannot read one).
\<close>

record pandas =
  str_of :: "cell \<Rightarrow> string"
  num_of :: "cell \<Rightarrow> cell"

subsection \<open>Machine numbers\<close>

text \<open>The arithmetic of 64-bit integers wraps around.\<close>

definition wrap64 :: "int \<Rightarrow> int" where
  "wrap64 i = (i + 2 ^ 63) mod 2 ^ 64 - 2 ^ 63"

text \<open>
  A binary64 value is a rational \<open>m * 2 ^ e\<close> with \<open>\<bar>m\<bar> < 2 ^ 53\<close> and \<open>-1074 \<le> e \<le> 971\<close>, an
  infinity or not-a-number. The result of an operation is the exact result rounded to
  the nearest value, a tie to the one with the even \<open>m\<close>, and an infinity from \<open>2 ^ 1024\<close>
  on. The model has one zero: the sign of a zero is not kept.
\<close>

datatype fl = Fin rat | PInf | NInf | NaN

fun lg :: "nat \<Rightarrow> nat" where
  "lg n = (if n < 2 then 0 else Suc (lg (n div 2)))"

declare lg.simps [simp del]

text \<open>\<open>ilog2 x\<close> is the integer \<open>k\<close> with \<open>2 ^ k \<le> \<bar>x\<bar> < 2 ^ (k + 1)\<close>, for \<open>x\<close> not zero.\<close>

definition ilog2 :: "rat \<Rightarrow> int" where
  "ilog2 x =
     (if 1 \<le> \<bar>x\<bar> then int (lg (nat \<lfloor>\<bar>x\<bar>\<rfloor>))
      else - int (lg (nat (\<lceil>1 / \<bar>x\<bar>\<rceil> - 1))) - 1)"

definition pow2 :: "int \<Rightarrow> rat" where
  "pow2 e = (if 0 \<le> e then 2 ^ nat e else 1 / 2 ^ nat (- e))"

definition round_half_even :: "rat \<Rightarrow> int" where
  "round_half_even q =
     (let f = \<lfloor>q\<rfloor>; d = q - of_int f
      in if d < 1 / 2 then f else if 1 / 2 < d then f + 1 else if even f then f else f + 1)"

definition round64 :: "rat \<Rightarrow> fl" where
  "round64 x =
     (if x = 0 then Fin 0
      else (let e = max (ilog2 x - 52) (- 1074);
                y = of_int (round_half_even (x / pow2 e)) * pow2 e
            in if 2 ^ 1024 \<le> \<bar>y\<bar> then (if x < 0 then NInf else PInf) else Fin y))"

definition isnan :: "fl \<Rightarrow> bool" where
  "isnan x = (x = NaN)"

text \<open>The sign of a value that is not not-a-number: \<open>-1\<close>, \<open>0\<close> or \<open>1\<close>.\<close>

definition fsgn :: "fl \<Rightarrow> int" where
  "fsgn x = (case x of Fin q \<Rightarrow> (if q < 0 then -1 else if q = 0 then 0 else 1)
             | PInf \<Rightarrow> 1 | NInf \<Rightarrow> -1 | NaN \<Rightarrow> 0)"

definition inf_of_sign :: "int \<Rightarrow> fl" where
  "inf_of_sign k = (if k < 0 then NInf else if k = 0 then NaN else PInf)"

definition fneg :: "fl \<Rightarrow> fl" where
  "fneg x = (case x of Fin q \<Rightarrow> Fin (- q) | PInf \<Rightarrow> NInf | NInf \<Rightarrow> PInf | NaN \<Rightarrow> NaN)"

fun fadd :: "fl \<Rightarrow> fl \<Rightarrow> fl" where
  "fadd (Fin a) (Fin b) = round64 (a + b)"
| "fadd NaN y = NaN"
| "fadd x NaN = NaN"
| "fadd PInf NInf = NaN"
| "fadd NInf PInf = NaN"
| "fadd PInf y = PInf"
| "fadd NInf y = NInf"
| "fadd x PInf = PInf"
| "fadd x NInf = NInf"

definition fsub :: "fl \<Rightarrow> fl \<Rightarrow> fl" where
  "fsub x y = fadd x (fneg y)"

definition fmul :: "fl \<Rightarrow> fl \<Rightarrow> fl" where
  "fmul x y =
     (case (x, y) of
        (NaN, _) \<Rightarrow> NaN
      | (_, NaN) \<Rightarrow> NaN
      | (Fin a, Fin b) \<Rightarrow> round64 (a * b)
      | _ \<Rightarrow> inf_of_sign (fsgn x * fsgn y))"

definition fdiv :: "fl \<Rightarrow> fl \<Rightarrow> fl" where
  "fdiv x y =
     (case (x, y) of
        (NaN, _) \<Rightarrow> NaN
      | (_, NaN) \<Rightarrow> NaN
      | (Fin a, Fin b) \<Rightarrow> (if b = 0 then inf_of_sign (fsgn x) else round64 (a / b))
      | (Fin a, _) \<Rightarrow> Fin 0
      | (_, Fin b) \<Rightarrow> (if b < 0 then fneg x else x)
      | _ \<Rightarrow> NaN)"

text \<open>The value of a numeric cell as a float (an integer is converted, with rounding), and
  the cell of a float.\<close>

definition float_of :: "cell \<Rightarrow> fl option" where
  "float_of c =
     (case c of
        IntV i \<Rightarrow> Some (round64 (of_int i))
      | NumV q \<Rightarrow> Some (Fin q)
      | PosInf \<Rightarrow> Some PInf
      | NegInf \<Rightarrow> Some NInf
      | NA \<Rightarrow> Some NaN
      | _ \<Rightarrow> None)"

definition of_float :: "fl \<Rightarrow> cell" where
  "of_float x = (case x of Fin q \<Rightarrow> NumV q | PInf \<Rightarrow> PosInf | NInf \<Rightarrow> NegInf | NaN \<Rightarrow> NA)"

subsection \<open>Dates: the format \<^verbatim>\<open>%d-%m-%Y\<close>\<close>

definition is_digit :: "char \<Rightarrow> bool" where
  "is_digit c = (c \<in> set ''0123456789'')"

definition digit_val :: "char \<Rightarrow> nat" where
  "digit_val c = of_char c - 48"

definition nat_of_digits :: "string \<Rightarrow> nat" where
  "nat_of_digits s = foldl (\<lambda>a c. 10 * a + digit_val c) 0 s"

fun split_on :: "char \<Rightarrow> string \<Rightarrow> string list" where
  "split_on sep [] = [[]]"
| "split_on sep (c # cs) =
     (if c = sep then [] # split_on sep cs
      else (case split_on sep cs of
              [] \<Rightarrow> [[c]]
            | w # ws \<Rightarrow> (c # w) # ws))"

definition is_leap :: "nat \<Rightarrow> bool" where
  "is_leap y = (y mod 4 = 0 \<and> (y mod 100 \<noteq> 0 \<or> y mod 400 = 0))"

definition days_in_month :: "nat \<Rightarrow> nat \<Rightarrow> nat" where
  "days_in_month y m =
     (if m = 2 then (if is_leap y then 29 else 28)
      else if m = 4 \<or> m = 6 \<or> m = 9 \<or> m = 11 then 30
      else 31)"

definition valid_date :: "date \<Rightarrow> bool" where
  "valid_date d =
     (1 \<le> dt_year d \<and> 1 \<le> dt_month d \<and> dt_month d \<le> 12 \<and>
      1 \<le> dt_day d \<and> dt_day d \<le> days_in_month (dt_year d) (dt_month d))"

definition digits_upto :: "nat \<Rightarrow> nat \<Rightarrow> string \<Rightarrow> bool" where
  "digits_upto lo hi s = (lo \<le> length s \<and> length s \<le> hi \<and> list_all is_digit s)"

text \<open>
  The day of \<^verbatim>\<open>%d\<close> is one or two digits, or a space and a digit that is not zero.
\<close>

definition day_text :: "string \<Rightarrow> bool" where
  "day_text d =
     (digits_upto 1 2 d \<or>
      (case d of [sp, c] \<Rightarrow> sp = CHR '' '' \<and> is_digit c \<and> c \<noteq> CHR ''0'' | _ \<Rightarrow> False))"

definition day_value :: "string \<Rightarrow> nat" where
  "day_value d = nat_of_digits (filter is_digit d)"

text \<open>
  The days a timestamp of nanoseconds can hold: from 1677-09-22 to 2262-04-11.
\<close>

definition in_timestamp_range :: "date \<Rightarrow> bool" where
  "in_timestamp_range d =
     ((1677, 9, 22) \<le> (dt_year d, dt_month d, dt_day d) \<and>
      (dt_year d, dt_month d, dt_day d) \<le> (2262, 4, 11))"

text \<open>
  \<^verbatim>\<open>pd.to_datetime(..., format='%d-%m-%Y', errors='coerce')\<close> on one text: a day, a month
  of one or two digits and a year of four digits, separated by hyphens, that name a day
  of the calendar a timestamp can hold; anything else is missing.
\<close>

definition strptime_dmy :: "string \<Rightarrow> date option" where
  "strptime_dmy s =
     (case split_on CHR ''-'' s of
        [d, m, y] \<Rightarrow>
          (if day_text d \<and> digits_upto 1 2 m \<and> digits_upto 4 4 y then
             (let dte = \<lparr>dt_year = nat_of_digits y, dt_month = nat_of_digits m,
                          dt_day = day_value d\<rparr>
              in if valid_date dte \<and> in_timestamp_range dte then Some dte else None)
           else None)
      | _ \<Rightarrow> None)"

definition to_datetime :: "cell \<Rightarrow> cell" where
  "to_datetime c =
     (case c of
        StrV s \<Rightarrow> (case strptime_dmy s of Some d \<Rightarrow> DtV d | None \<Rightarrow> NA)
      | DtV d \<Rightarrow> DtV d
      | _ \<Rightarrow> NA)"

definition isnull :: "cell \<Rightarrow> bool" where
  "isnull c = (c = NA)"

text \<open>Calendar fields of a date: day of the week (Monday is 0) and ISO week number.\<close>

definition days_before_year :: "nat \<Rightarrow> nat" where
  "days_before_year y = (let p = y - 1 in p * 365 + p div 4 - p div 100 + p div 400)"

definition days_before_month :: "nat \<Rightarrow> nat \<Rightarrow> nat" where
  "days_before_month y m = sum_list (map (days_in_month y) [1..<m])"

definition ordinal :: "date \<Rightarrow> nat" where
  "ordinal d = days_before_year (dt_year d) + days_before_month (dt_year d) (dt_month d) + dt_day d"

definition dayofweek :: "date \<Rightarrow> nat" where
  "dayofweek d = (ordinal d + 6) mod 7"

definition iso_week1_monday :: "nat \<Rightarrow> nat" where
  "iso_week1_monday y =
     (let first_day = days_before_year y + 1;
          first_weekday = (first_day + 6) mod 7;
          week1_monday = first_day - first_weekday
      in if first_weekday > 3 then week1_monday + 7 else week1_monday)"

definition iso_week :: "date \<Rightarrow> nat" where
  "iso_week d =
     (let y = dt_year d; t = ordinal d in
      if t < iso_week1_monday y then (t - iso_week1_monday (y - 1)) div 7 + 1
      else if iso_week1_monday (y + 1) \<le> t then 1
      else (t - iso_week1_monday y) div 7 + 1)"

subsection \<open>Text: \<^verbatim>\<open>strip\<close>, \<^verbatim>\<open>title\<close>, \<^verbatim>\<open>zfill\<close> (ASCII)\<close>

definition is_space :: "char \<Rightarrow> bool" where
  "is_space c = (c \<in> {CHR '' '', CHR 0x09, CHR 0x0A, CHR 0x0B, CHR 0x0C, CHR 0x0D,
                       CHR 0x1C, CHR 0x1D, CHR 0x1E, CHR 0x1F})"

definition strip :: "string \<Rightarrow> string" where
  "strip s = rev (dropWhile is_space (rev (dropWhile is_space s)))"

definition is_lower :: "char \<Rightarrow> bool" where
  "is_lower c = (c \<in> set ''abcdefghijklmnopqrstuvwxyz'')"

definition is_upper :: "char \<Rightarrow> bool" where
  "is_upper c = (c \<in> set ''ABCDEFGHIJKLMNOPQRSTUVWXYZ'')"

definition to_upper :: "char \<Rightarrow> char" where
  "to_upper c = (if is_lower c then char_of (of_char c - (32::nat)) else c)"

definition to_lower :: "char \<Rightarrow> char" where
  "to_lower c = (if is_upper c then char_of (of_char c + (32::nat)) else c)"

text \<open>\<open>title_from cased s\<close>: \<open>cased\<close> says that the previous character was a letter.\<close>

fun title_from :: "bool \<Rightarrow> string \<Rightarrow> string" where
  "title_from cased [] = []"
| "title_from cased (c # cs) =
     (if is_lower c \<or> is_upper c
      then (if cased then to_lower c else to_upper c) # title_from True cs
      else c # title_from False cs)"

definition title :: "string \<Rightarrow> string" where
  "title s = title_from False s"

definition zfill :: "nat \<Rightarrow> string \<Rightarrow> string" where
  "zfill width s =
     (if width \<le> length s then s
      else (case s of
              c # cs \<Rightarrow>
                (if c = CHR ''+'' \<or> c = CHR ''-''
                 then c # replicate (width - length s) CHR ''0'' @ cs
                 else replicate (width - length s) CHR ''0'' @ s)
            | [] \<Rightarrow> replicate width CHR ''0''))"

text \<open>The \<^verbatim>\<open>.str\<close> accessor works cell by cell; a cell that is not text becomes missing.\<close>

definition str_map :: "(string \<Rightarrow> string) \<Rightarrow> cell \<Rightarrow> cell" where
  "str_map f c = (case c of StrV s \<Rightarrow> StrV (f s) | _ \<Rightarrow> NA)"

definition str_len_is :: "nat \<Rightarrow> cell \<Rightarrow> bool" where
  "str_len_is n c = (case c of StrV s \<Rightarrow> length s = n | _ \<Rightarrow> False)"

text \<open>The decimal digits of an integer, as \<^verbatim>\<open>str\<close> writes them.\<close>

fun digits_of :: "nat \<Rightarrow> string" where
  "digits_of n =
     (if n < 10 then [char_of (48 + n)]
      else digits_of (n div 10) @ [char_of (48 + n mod 10)])"

declare digits_of.simps [simp del]

definition str_of_int :: "int \<Rightarrow> string" where
  "str_of_int i = (if i < 0 then CHR ''-'' # digits_of (nat (- i)) else digits_of (nat i))"

definition astype_str :: "pandas \<Rightarrow> cell \<Rightarrow> cell" where
  "astype_str P c =
     (case c of
        StrV s \<Rightarrow> StrV s
      | IntV i \<Rightarrow> StrV (str_of_int i)
      | NA \<Rightarrow> StrV ''nan''
      | _ \<Rightarrow> StrV (str_of P c))"

text \<open>
  The accessor \<^verbatim>\<open>.str\<close> raises \<^verbatim>\<open>AttributeError\<close> on a column that is not one of objects.
  A column read from a file is one of objects when a cell of it is text (or when it has
  no cell at all); removing rows does not change what kind of column it is.
\<close>

definition is_text :: "cell \<Rightarrow> bool" where
  "is_text c = (case c of StrV s \<Rightarrow> True | _ \<Rightarrow> False)"

definition has_str_accessor :: "cell list \<Rightarrow> bool" where
  "has_str_accessor cs = (cs = [] \<or> list_ex is_text cs)"

subsection \<open>Numbers: \<^verbatim>\<open>to_numeric\<close>, \<^verbatim>\<open>fillna\<close>, \<^verbatim>\<open>clip\<close>, sums and comparisons\<close>

text \<open>
  \<^verbatim>\<open>pd.to_numeric(..., errors='coerce')\<close> reads every cell, and makes the column one of
  integers when every cell is an integer, and one of floats otherwise.
\<close>

definition is_int :: "cell \<Rightarrow> bool" where
  "is_int c = (case c of IntV i \<Rightarrow> True | _ \<Rightarrow> False)"

definition numeric_or_na :: "cell \<Rightarrow> cell" where
  "numeric_or_na c = (case c of StrV s \<Rightarrow> NA | DtV d \<Rightarrow> NA | _ \<Rightarrow> c)"

definition to_numeric :: "pandas \<Rightarrow> cell \<Rightarrow> cell" where
  "to_numeric P c =
     (case c of
        StrV s \<Rightarrow> numeric_or_na (num_of P c)
      | DtV d \<Rightarrow> numeric_or_na (num_of P c)
      | _ \<Rightarrow> c)"

definition int_to_float :: "cell \<Rightarrow> cell" where
  "int_to_float c = (case c of IntV i \<Rightarrow> of_float (round64 (of_int i)) | _ \<Rightarrow> c)"

definition unify_numeric :: "cell list \<Rightarrow> cell list" where
  "unify_numeric cs = (if list_all is_int cs then cs else map int_to_float cs)"

definition to_numeric_col :: "pandas \<Rightarrow> cell list \<Rightarrow> cell list" where
  "to_numeric_col P cs = unify_numeric (map (to_numeric P) cs)"

definition fillna :: "cell \<Rightarrow> cell \<Rightarrow> cell" where
  "fillna v c = (if isnull c then v else c)"

definition clip_lower0 :: "cell \<Rightarrow> cell" where
  "clip_lower0 c =
     (case c of
        IntV i \<Rightarrow> IntV (max i 0)
      | NumV r \<Rightarrow> NumV (max r 0)
      | NegInf \<Rightarrow> NumV 0
      | _ \<Rightarrow> c)"

text \<open>
  The sum of the cells of one row over some numeric columns, \<^verbatim>\<open>df[cols].sum(axis=1)\<close>.
  Over columns of integers it is the sum of 64-bit integers, which wraps around. When
  one of the columns is a column of floats the integers are converted, the cells are
  added as floats from left to right, and a missing cell is skipped.
\<close>

definition int_of :: "cell \<Rightarrow> int" where
  "int_of c = (case c of IntV i \<Rightarrow> i | _ \<Rightarrow> 0)"

definition float_sum :: "cell list \<Rightarrow> fl" where
  "float_sum cs =
     foldl fadd (Fin 0) (filter (\<lambda>x. \<not> isnan x) (map the (filter (\<lambda>x. x \<noteq> None) (map float_of cs))))"

definition csum :: "cell list \<Rightarrow> cell" where
  "csum cs =
     (if cs \<noteq> [] \<and> list_all is_int cs then IntV (wrap64 (sum_list (map int_of cs)))
      else of_float (float_sum cs))"

definition eq_zero :: "cell \<Rightarrow> bool" where
  "eq_zero c = (c = NumV 0 \<or> c = IntV 0)"

definition gt_zero :: "cell \<Rightarrow> error + bool" where
  "gt_zero c =
     (case c of
        IntV i \<Rightarrow> Inr (0 < i)
      | NumV r \<Rightarrow> Inr (0 < r)
      | PosInf \<Rightarrow> Inr True
      | NegInf \<Rightarrow> Inr False
      | NA \<Rightarrow> Inr False
      | _ \<Rightarrow> Inl TypeError)"

fun sequence :: "(error + 'a) list \<Rightarrow> error + 'a list" where
  "sequence [] = Inr []"
| "sequence (x # xs) =
     (case x of
        Inl e \<Rightarrow> Inl e
      | Inr v \<Rightarrow> (case sequence xs of Inl e \<Rightarrow> Inl e | Inr vs \<Rightarrow> Inr (v # vs)))"

subsection \<open>Frames\<close>

definition len :: "dataframe \<Rightarrow> nat" where
  "len df = length (rows df)"

definition column :: "dataframe \<Rightarrow> string \<Rightarrow> cell list" where
  "column df name = map (\<lambda>r. r name) (rows df)"

definition getitem :: "dataframe \<Rightarrow> string \<Rightarrow> error + cell list" where
  "getitem df name =
     (if name \<in> set (columns df) then Inr (column df name) else Inl (KeyError name))"

text \<open>\<^verbatim>\<open>df[name] = values\<close>, one value per row: the column is replaced, or added last.\<close>

definition setitem :: "dataframe \<Rightarrow> string \<Rightarrow> cell list \<Rightarrow> dataframe" where
  "setitem df name vals =
     \<lparr>columns = (if name \<in> set (columns df) then columns df else columns df @ [name]),
      rows = map (\<lambda>(r, v). r(name := v)) (zip (rows df) vals)\<rparr>"

text \<open>\<^verbatim>\<open>df[name] = df[name].map(f)\<close> for a cell function \<open>f\<close>.\<close>

definition map_column :: "string \<Rightarrow> (cell \<Rightarrow> cell) \<Rightarrow> dataframe \<Rightarrow> dataframe" where
  "map_column name f df = setitem df name (map f (column df name))"

text \<open>
  \<^verbatim>\<open>df[keep]\<close> for a list of truth values, one per row, and
  \<^verbatim>\<open>df.dropna(subset=[name])\<close>: new frames with the rows kept.
\<close>

definition boolean_index :: "dataframe \<Rightarrow> bool list \<Rightarrow> dataframe" where
  "boolean_index df keep =
     \<lparr>columns = columns df, rows = map fst (filter snd (zip (rows df) keep))\<rparr>"

definition dropna :: "string \<Rightarrow> dataframe \<Rightarrow> dataframe" where
  "dropna name df = boolean_index df (map (\<lambda>c. \<not> isnull c) (column df name))"

definition count_true :: "bool list \<Rightarrow> nat" where
  "count_true bs = length (filter (\<lambda>b. b) bs)"

subsection \<open>The object store\<close>

text \<open>
  Frames are objects: a variable of the program holds a reference, and an assignment
  to a column changes the object for every holder of the reference. The store maps
  references to frames; \<open>nxt\<close> is the next reference to hand out.
\<close>

record store =
  objs :: "nat \<Rightarrow> dataframe option"
  nxt :: nat

definition empty_frame :: dataframe where
  "empty_frame = \<lparr>columns = [], rows = []\<rparr>"

definition fetch :: "store \<Rightarrow> nat \<Rightarrow> dataframe" where
  "fetch s a = (case objs s a of Some df \<Rightarrow> df | None \<Rightarrow> empty_frame)"

definition alloc :: "store \<Rightarrow> dataframe \<Rightarrow> nat \<times> store" where
  "alloc s df = (nxt s, s\<lparr>objs := (objs s)(nxt s := Some df), nxt := Suc (nxt s)\<rparr>)"

definition copy :: "store \<Rightarrow> nat \<Rightarrow> nat \<times> store" where
  "copy s a = alloc s (fetch s a)"

definition mutate :: "store \<Rightarrow> nat \<Rightarrow> (dataframe \<Rightarrow> dataframe) \<Rightarrow> store" where
  "mutate s a f = s\<lparr>objs := (objs s)(a := Some (f (fetch s a)))\<rparr>"

definition wf_store :: "store \<Rightarrow> bool" where
  "wf_store s = (\<forall>a. objs s a \<noteq> None \<longrightarrow> a < nxt s)"

section \<open>The preprocessor\<close>

text \<open>
  The preprocessor object holds the cleaning report: a dictionary from the category
  name to the dictionary of that category's counters.
\<close>

record preprocessor =
  cleaning_report :: "string \<Rightarrow> (string \<times> int) list option"

text \<open>
  The three cleaning methods have the same body up to the names of the count columns,
  of the total column, of the category and of the counter of rows with a zero total.
  The body is modelled once, block by block as the comments of the source divide it.
  Every block works on the store and on the reference held by the local variable
  \<^verbatim>\<open>df_clean\<close>; a block that rebinds the variable returns the new reference.
\<close>

text \<open>Convert the date column and remove the rows with invalid dates (a missing
  \<^verbatim>\<open>date\<close> column raises); the count of invalid dates comes first in the result.\<close>

definition parse_dates :: "store \<Rightarrow> nat \<Rightarrow> error + (nat \<times> nat \<times> store)" where
  "parse_dates s df_clean =
     (case getitem (fetch s df_clean) ''date'' of
        Inl e \<Rightarrow> Inl e
      | Inr dates \<Rightarrow>
          (let s = mutate s df_clean (\<lambda>d. setitem d ''date'' (map to_datetime dates));
               invalid_dates = count_true (map isnull (column (fetch s df_clean) ''date''));
               (df_clean, s) = alloc s (dropna ''date'' (fetch s df_clean))
           in Inr (invalid_dates, df_clean, s)))"

text \<open>
  Clean the string columns: the loop guarded by \<^verbatim>\<open>if col in df_clean.columns\<close>. The frame
  \<open>raw\<close> is the copy as it was made: what kind of column \<^verbatim>\<open>df_clean[col]\<close> is, is read off
  its column there. The result is the store, and the exception if one is raised.
\<close>

fun clean_string_cols :: "dataframe \<Rightarrow> store \<Rightarrow> nat \<Rightarrow> string list \<Rightarrow> store \<times> error option" where
  "clean_string_cols raw s df_clean [] = (s, None)"
| "clean_string_cols raw s df_clean (col # string_cols) =
     (if col \<in> set (columns (fetch s df_clean))
      then (if has_str_accessor (column raw col)
            then clean_string_cols raw
                   (mutate s df_clean (map_column col (str_map title \<circ> str_map strip)))
                   df_clean string_cols
            else (s, Some AttributeError))
      else clean_string_cols raw s df_clean string_cols)"

declare clean_string_cols.simps [simp del]

text \<open>Convert the pincode to text, pad it to six characters, keep the rows of length six.\<close>

definition pad_pincode :: "pandas \<Rightarrow> store \<Rightarrow> nat \<Rightarrow> nat \<times> store" where
  "pad_pincode P s df_clean =
     (if ''pincode'' \<in> set (columns (fetch s df_clean))
      then (let s = mutate s df_clean
                      (map_column ''pincode'' (str_map (zfill 6) \<circ> astype_str P))
            in alloc s (boolean_index (fetch s df_clean)
                          (map (str_len_is 6) (column (fetch s df_clean) ''pincode''))))
      else (df_clean, s))"

text \<open>Make the count columns numeric and non-negative.\<close>

definition clean_count_cols :: "pandas \<Rightarrow> store \<Rightarrow> nat \<Rightarrow> string list \<Rightarrow> store" where
  "clean_count_cols P s df_clean count_cols =
     foldl (\<lambda>s col.
              if col \<in> set (columns (fetch s df_clean))
              then (let s = mutate s df_clean
                              (\<lambda>d. setitem d col (to_numeric_col P (column d col)))
                    in mutate s df_clean (map_column col (clip_lower0 \<circ> fillna (NumV 0))))
              else s)
           s count_cols"

text \<open>Add the total column, when every count column is there.\<close>

definition add_total :: "store \<Rightarrow> nat \<Rightarrow> string list \<Rightarrow> string \<Rightarrow> store" where
  "add_total s df_clean count_cols total_col =
     (if list_all (\<lambda>col. col \<in> set (columns (fetch s df_clean))) count_cols
      then mutate s df_clean
             (\<lambda>d. setitem d total_col (map (\<lambda>r. csum (map r count_cols)) (rows d)))
      else s)"

text \<open>Count the rows with a zero total and keep the rows with a positive total (a missing
  total column raises, and so does a total that cannot be compared with a number).\<close>

definition drop_zero_total :: "store \<Rightarrow> nat \<Rightarrow> string \<Rightarrow> error + (nat \<times> nat \<times> store)" where
  "drop_zero_total s df_clean total_col =
     (case getitem (fetch s df_clean) total_col of
        Inl e \<Rightarrow> Inl e
      | Inr totals \<Rightarrow>
          (let zero_count = count_true (map eq_zero totals)
           in case sequence (map gt_zero totals) of
                Inl e \<Rightarrow> Inl e
              | Inr positive \<Rightarrow>
                  (let (df_clean, s) = alloc s (boolean_index (fetch s df_clean) positive)
                   in Inr (zero_count, df_clean, s))))"

text \<open>Add the temporal features.\<close>

definition dt_field :: "(date \<Rightarrow> nat) \<Rightarrow> cell \<Rightarrow> cell" where
  "dt_field f c = (case c of DtV d \<Rightarrow> IntV (int (f d)) | _ \<Rightarrow> NA)"

definition add_dt_column :: "string \<Rightarrow> (date \<Rightarrow> nat) \<Rightarrow> dataframe \<Rightarrow> dataframe" where
  "add_dt_column name f d = setitem d name (map (dt_field f) (column d ''date''))"

definition add_temporal_features :: "store \<Rightarrow> nat \<Rightarrow> store" where
  "add_temporal_features s df_clean =
     (let s = mutate s df_clean (add_dt_column ''year'' dt_year);
          s = mutate s df_clean (add_dt_column ''month'' dt_month);
          s = mutate s df_clean (add_dt_column ''day_of_week'' dayofweek);
          s = mutate s df_clean (add_dt_column ''week_of_year'' iso_week)
      in s)"

text \<open>
  The body. The state is the preprocessor object and the store, the argument \<open>df\<close> is
  the reference the caller passes, and the result is the reference returned or the
  exception raised, with the state at that moment.
\<close>

definition clean_with ::
  "pandas \<Rightarrow> string \<Rightarrow> string list \<Rightarrow> string \<Rightarrow> string \<Rightarrow>
   preprocessor \<times> store \<Rightarrow> nat \<Rightarrow> (preprocessor \<times> store) \<times> (error + nat)" where
  "clean_with P category count_cols total_col zero_key st df =
     (let (self, s) = st;
          (df_clean, s) = copy s df;
          initial = fetch s df_clean;
          initial_rows = len initial
      in case parse_dates s df_clean of
           Inl e \<Rightarrow> ((self, s), Inl e)
         | Inr (invalid_dates, df_clean, s) \<Rightarrow>
      case clean_string_cols initial s df_clean [''state'', ''district''] of
           (s, Some e) \<Rightarrow> ((self, s), Inl e)
         | (s, None) \<Rightarrow>
      let (df_clean, s) = pad_pincode P s df_clean;
          s = clean_count_cols P s df_clean count_cols;
          s = add_total s df_clean count_cols total_col
      in case drop_zero_total s df_clean total_col of
           Inl e \<Rightarrow> ((self, s), Inl e)
         | Inr (zero_count, df_clean, s) \<Rightarrow>
      let s = add_temporal_features s df_clean;
          final_rows = len (fetch s df_clean);
          self = self\<lparr>cleaning_report := (cleaning_report self)(category :=
                   Some [(''initial_rows'', int initial_rows),
                         (''final_rows'', int final_rows),
                         (''rows_removed'', int initial_rows - int final_rows),
                         (''invalid_dates'', int invalid_dates),
                         (zero_key, int zero_count)])\<rparr>
      in ((self, s), Inr df_clean))"

definition clean_enrolment_data ::
  "pandas \<Rightarrow> preprocessor \<times> store \<Rightarrow> nat \<Rightarrow> (preprocessor \<times> store) \<times> (error + nat)" where
  "clean_enrolment_data P =
     clean_with P ''enrolment'' [''age_0_5'', ''age_5_17'', ''age_18_greater'']
       ''total_enrolments'' ''zero_enrolments''"

definition clean_demographic_data ::
  "pandas \<Rightarrow> preprocessor \<times> store \<Rightarrow> nat \<Rightarrow> (preprocessor \<times> store) \<times> (error + nat)" where
  "clean_demographic_data P =
     clean_with P ''demographic'' [''demo_age_5_17'', ''demo_age_17_'']
       ''total_demo_updates'' ''zero_updates''"

definition clean_biometric_data ::
  "pandas \<Rightarrow> preprocessor \<times> store \<Rightarrow> nat \<Rightarrow> (preprocessor \<times> store) \<times> (error + nat)" where
  "clean_biometric_data P =
     clean_with P ''biometric'' [''bio_age_5_17'', ''bio_age_17_'']
       ''total_bio_updates'' ''zero_updates''"

section \<open>Predicates on frames and stores\<close>

text \<open>
  \<open>derived_rows W d d'\<close>: the frame \<open>d'\<close> has the columns of \<open>d\<close> and possibly more, and
  every row of \<open>d'\<close> is a row of \<open>d\<close> changed at most in the columns of \<open>W\<close>.
\<close>

definition derived_rows :: "string set \<Rightarrow> dataframe \<Rightarrow> dataframe \<Rightarrow> bool" where
  "derived_rows W d d' =
     (set (columns d) \<subseteq> set (columns d') \<and>
      (\<forall>r' \<in> set (rows d'). \<exists>r \<in> set (rows d). \<forall>k. k \<notin> W \<longrightarrow> r' k = r k))"

text \<open>A date already parsed is a day of the calendar; a number is not negative.\<close>

definition wf_cell :: "cell \<Rightarrow> bool" where
  "wf_cell c = (case c of DtV d \<Rightarrow> valid_date d | _ \<Rightarrow> True)"


text \<open>
  \<open>stays n s s'\<close>: the objects with a reference below \<open>n\<close> are in \<open>s'\<close> what they were
  in \<open>s\<close>; new objects only have references from \<open>n\<close> on.
\<close>

definition stays :: "nat \<Rightarrow> store \<Rightarrow> store \<Rightarrow> bool" where
  "stays n s s' = (n \<le> nxt s' \<and> (\<forall>a<n. objs s' a = objs s a))"

text \<open>One turn of the loop over the count columns.\<close>

definition count_step :: "pandas \<Rightarrow> string \<Rightarrow> store \<Rightarrow> nat \<Rightarrow> store" where
  "count_step P col s c =
     (if col \<in> set (columns (fetch s c))
      then (let s = mutate s c (\<lambda>d. setitem d col (to_numeric_col P (column d col)))
            in mutate s c (map_column col (clip_lower0 \<circ> fillna (NumV 0))))
      else s)"

section \<open>The frame a block computes\<close>

text \<open>
  For each block of the body, the frame it leaves in the variable \<^verbatim>\<open>df_clean\<close> as a function
  of the frame it finds there; the lemmas below show that the blocks on the store compute
  these frames.
\<close>

definition parse_dates_frame :: "dataframe \<Rightarrow> error + (nat \<times> dataframe)" where
  "parse_dates_frame d =
     (if ''date'' \<in> set (columns d)
      then (let d1 = map_column ''date'' to_datetime d
            in Inr (count_true (map isnull (column d1 ''date'')), dropna ''date'' d1))
      else Inl (KeyError ''date''))"

fun strings_frame :: "dataframe \<Rightarrow> string list \<Rightarrow> dataframe \<Rightarrow> error + dataframe" where
  "strings_frame raw [] d = Inr d"
| "strings_frame raw (col # cols) d =
     (if col \<in> set (columns d)
      then (if has_str_accessor (column raw col)
            then strings_frame raw cols (map_column col (str_map title \<circ> str_map strip) d)
            else Inl AttributeError)
      else strings_frame raw cols d)"

declare strings_frame.simps [simp del]

definition pincode_frame :: "pandas \<Rightarrow> dataframe \<Rightarrow> dataframe" where
  "pincode_frame P d =
     (if ''pincode'' \<in> set (columns d)
      then (let d1 = map_column ''pincode'' (str_map (zfill 6) \<circ> astype_str P) d
            in boolean_index d1 (map (str_len_is 6) (column d1 ''pincode'')))
      else d)"

definition count_col :: "pandas \<Rightarrow> string \<Rightarrow> dataframe \<Rightarrow> dataframe" where
  "count_col P col d =
     (if col \<in> set (columns d)
      then map_column col (clip_lower0 \<circ> fillna (NumV 0))
             (setitem d col (to_numeric_col P (column d col)))
      else d)"

definition counts_frame :: "pandas \<Rightarrow> string list \<Rightarrow> dataframe \<Rightarrow> dataframe" where
  "counts_frame P cols d = foldl (\<lambda>d col. count_col P col d) d cols"

definition total_frame :: "string list \<Rightarrow> string \<Rightarrow> dataframe \<Rightarrow> dataframe" where
  "total_frame cc tc d =
     (if list_all (\<lambda>col. col \<in> set (columns d)) cc
      then setitem d tc (map (\<lambda>r. csum (map r cc)) (rows d))
      else d)"

definition positive_frame :: "string \<Rightarrow> dataframe \<Rightarrow> error + (nat \<times> dataframe)" where
  "positive_frame tc d =
     (case getitem d tc of
        Inl e \<Rightarrow> Inl e
      | Inr totals \<Rightarrow>
          (case sequence (map gt_zero totals) of
             Inl e \<Rightarrow> Inl e
           | Inr positive \<Rightarrow> Inr (count_true (map eq_zero totals), boolean_index d positive)))"

definition temporal_frame :: "dataframe \<Rightarrow> dataframe" where
  "temporal_frame d =
     add_dt_column ''week_of_year'' iso_week (add_dt_column ''day_of_week'' dayofweek
       (add_dt_column ''month'' dt_month (add_dt_column ''year'' dt_year d)))"

fun after_positive :: "nat \<Rightarrow> error + (nat \<times> dataframe) \<Rightarrow> error + (nat \<times> nat \<times> dataframe)" where
  "after_positive nbad (Inl e) = Inl e"
| "after_positive nbad (Inr (nzero, d)) = Inr (nbad, nzero, temporal_frame d)"

fun after_strings ::
  "pandas \<Rightarrow> string list \<Rightarrow> string \<Rightarrow> nat \<Rightarrow> error + dataframe \<Rightarrow>
   error + (nat \<times> nat \<times> dataframe)" where
  "after_strings P cc tc nbad (Inl e) = Inl e"
| "after_strings P cc tc nbad (Inr d) =
     after_positive nbad
       (positive_frame tc (total_frame cc tc (counts_frame P cc (pincode_frame P d))))"

fun after_dates ::
  "pandas \<Rightarrow> string list \<Rightarrow> string \<Rightarrow> dataframe \<Rightarrow> error + (nat \<times> dataframe) \<Rightarrow>
   error + (nat \<times> nat \<times> dataframe)" where
  "after_dates P cc tc raw (Inl e) = Inl e"
| "after_dates P cc tc raw (Inr (nbad, d)) =
     after_strings P cc tc nbad (strings_frame raw [''state'', ''district''] d)"

text \<open>
  The whole body on frames: the exception raised, or the number of invalid dates, the
  number of zero totals and the frame returned.
\<close>

definition clean_frame ::
  "pandas \<Rightarrow> string list \<Rightarrow> string \<Rightarrow> dataframe \<Rightarrow> error + (nat \<times> nat \<times> dataframe)" where
  "clean_frame P cc tc d = after_dates P cc tc d (parse_dates_frame d)"

definition report_entry :: "string \<Rightarrow> nat \<Rightarrow> nat \<Rightarrow> nat \<Rightarrow> nat \<Rightarrow> (string \<times> int) list" where
  "report_entry zk n0 n1 nbad nzero =
     [(''initial_rows'', int n0), (''final_rows'', int n1), (''rows_removed'', int n0 - int n1),
      (''invalid_dates'', int nbad), (zk, int nzero)]"

subsection \<open>Row by row\<close>

text \<open>What the blocks do to one row, and what they ask of it.\<close>

definition upd_cell :: "string \<Rightarrow> (cell \<Rightarrow> cell) \<Rightarrow> row \<Rightarrow> row" where
  "upd_cell name f r = r(name := f (r name))"

definition cell_at :: "string \<Rightarrow> row \<Rightarrow> cell" where
  "cell_at name r = r name"

definition notnull_at :: "string \<Rightarrow> row \<Rightarrow> bool" where
  "notnull_at name r = (\<not> isnull (r name))"

definition len6_at :: "string \<Rightarrow> row \<Rightarrow> bool" where
  "len6_at name r = str_len_is 6 (r name)"

definition with_total :: "string list \<Rightarrow> string \<Rightarrow> row \<Rightarrow> row" where
  "with_total cc tc r = r(tc := csum (map r cc))"

definition with_dt :: "string \<Rightarrow> (date \<Rightarrow> nat) \<Rightarrow> row \<Rightarrow> row" where
  "with_dt name f r = r(name := dt_field f (r ''date''))"

definition add_col :: "string \<Rightarrow> string list \<Rightarrow> string list" where
  "add_col name cs = (if name \<in> set cs then cs else cs @ [name])"

text \<open>\<open>set_cells name rs vs\<close> puts the values \<open>vs\<close> in the column \<open>name\<close> of the rows \<open>rs\<close>.\<close>

definition set_cells :: "string \<Rightarrow> row list \<Rightarrow> cell list \<Rightarrow> row list" where
  "set_cells name rs vs = map (\<lambda>(r, v). r(name := v)) (zip rs vs)"

definition dates_result :: "string list \<Rightarrow> row list \<Rightarrow> error + (nat \<times> dataframe)" where
  "dates_result cs rs =
     Inr (count_true (map isnull (map (cell_at ''date'') rs)),
          \<lparr>columns = cs, rows = filter (notnull_at ''date'') rs\<rparr>)"

definition positive_result ::
  "string \<Rightarrow> string list \<Rightarrow> row list \<Rightarrow> error + (nat \<times> dataframe)" where
  "positive_result tc cs rs =
     (case sequence (map gt_zero (map (cell_at tc) rs)) of
        Inl e \<Rightarrow> Inl e
      | Inr positive \<Rightarrow>
          Inr (count_true (map eq_zero (map (cell_at tc) rs)),
               \<lparr>columns = cs, rows = map fst (filter snd (zip rs positive))\<rparr>))"

section \<open>Tables to run the code on\<close>

text \<open>A row from its cells (a column that is not listed is missing), and the view of a
  frame at some of its columns.\<close>

definition mkrow :: "(string \<times> cell) list \<Rightarrow> row" where
  "mkrow kv = (\<lambda>k. case map_of kv k of Some v \<Rightarrow> v | None \<Rightarrow> NA)"

definition view :: "string list \<Rightarrow> dataframe \<Rightarrow> cell list list" where
  "view names d = map (\<lambda>r. map r names) (rows d)"

text \<open>The store that holds one frame, at reference 0, and the preprocessor as
  \<^verbatim>\<open>__init__\<close> makes it.\<close>

definition store_of :: "dataframe \<Rightarrow> store" where
  "store_of d = \<lparr>objs = (\<lambda>a. None)(0 := Some d), nxt = 1\<rparr>"

definition init :: preprocessor where
  "init = \<lparr>cleaning_report = (\<lambda>category. None)\<rparr>"

text \<open>A library whose conversions are never called on tables whose pincodes are text and
  whose counts are numbers: it reads no number and writes no text.\<close>

definition plain :: pandas where
  "plain = \<lparr>str_of = (\<lambda>c. []), num_of = (\<lambda>c. NA)\<rparr>"

text \<open>What a call leaves behind: the frame it returned (or the exception), and a counter
  of the report of a category.\<close>

definition returned :: "(preprocessor \<times> store) \<times> (error + nat) \<Rightarrow> error + dataframe" where
  "returned r = (case snd r of Inl e \<Rightarrow> Inl e | Inr res \<Rightarrow> Inr (fetch (snd (fst r)) res))"

definition report_of ::
  "(preprocessor \<times> store) \<times> (error + nat) \<Rightarrow> string \<Rightarrow> string \<Rightarrow> int option" where
  "report_of r category key =
     (case cleaning_report (fst (fst r)) category of
        None \<Rightarrow> None
      | Some entry \<Rightarrow> map_of entry key)"

definition enrolment_columns :: "string list" where
  "enrolment_columns =
     [''date'', ''state'', ''district'', ''pincode'', ''age_0_5'', ''age_5_17'', ''age_18_greater'']"

text \<open>Two rows: the first has a pincode of four characters, the second a date that is
  not a day of the calendar.\<close>

definition short_pincode_table :: dataframe where
  "short_pincode_table = \<lparr>columns = enrolment_columns, rows = [
     mkrow [(''date'', StrV ''15-03-2024''), (''state'', StrV ''delhi''),
            (''district'', StrV ''new delhi''), (''pincode'', StrV ''1234''),
            (''age_0_5'', NumV 1), (''age_5_17'', NumV 2), (''age_18_greater'', NumV 3)],
     mkrow [(''date'', StrV ''31-02-2024''), (''state'', StrV ''goa''),
            (''district'', StrV ''north goa''), (''pincode'', StrV ''403001''),
            (''age_0_5'', NumV 4), (''age_5_17'', NumV 5), (''age_18_greater'', NumV 6)]]\<rparr>"

text \<open>Two rows with a valid date: one pincode of six letters, one pincode missing.\<close>

definition bad_pincode_table :: dataframe where
  "bad_pincode_table = \<lparr>columns = enrolment_columns, rows = [
     mkrow [(''date'', StrV ''15-03-2024''), (''state'', StrV ''delhi''),
            (''district'', StrV ''new delhi''), (''pincode'', StrV ''ABCDEF''),
            (''age_0_5'', NumV 1), (''age_5_17'', NumV 2), (''age_18_greater'', NumV 3)],
     mkrow [(''date'', StrV ''16-03-2024''), (''state'', StrV ''goa''),
            (''district'', StrV ''north goa''), (''pincode'', NA),
            (''age_0_5'', NumV 4), (''age_5_17'', NumV 5), (''age_18_greater'', NumV 6)]]\<rparr>"



section \<open>The store and the frames\<close>

lemma fst_alloc: "fst (alloc s d) = nxt s" by (simp add: alloc_def)

lemma nxt_alloc: "nxt (snd (alloc s d)) = Suc (nxt s)" by (simp add: alloc_def)

lemma objs_alloc: "objs (snd (alloc s d)) a = (if a = nxt s then Some d else objs s a)" by (simp add: alloc_def)

lemma nxt_mutate: "nxt (mutate s b f) = nxt s" by (simp add: mutate_def)

lemma objs_mutate: "objs (mutate s b f) a = (if a = b then Some (f (fetch s b)) else objs s a)" by (simp add: mutate_def)

lemma fetch_alloc: "fetch (snd (alloc s d)) a = (if a = nxt s then d else fetch s a)" by (simp add: fetch_def objs_alloc)

lemma fetch_mutate: "fetch (mutate s b f) a = (if a = b then f (fetch s b) else fetch s a)" by (simp add: fetch_def objs_mutate)

lemma alloc_eq: "alloc s d = (c', s') \<Longrightarrow> c' = nxt s \<and> nxt s' = Suc (nxt s) \<and> fetch s' c' = d \<and> (\<forall>a. a \<noteq> nxt s \<longrightarrow> objs s' a = objs s a)"
  by (auto simp: alloc_def fetch_def)

lemma derived_refl: "derived_rows W d d" by (auto simp: derived_rows_def)

lemma derived_trans: "derived_rows W1 d1 d2 \<Longrightarrow> derived_rows W2 d2 d3 \<Longrightarrow> derived_rows (W1 \<union> W2) d1 d3"
  unfolding derived_rows_def by (auto, metis)

lemma derived_mono: "derived_rows W d d' \<Longrightarrow> W \<subseteq> W' \<Longrightarrow> derived_rows W' d d'"
  unfolding derived_rows_def by blast

lemma derived_setitem: "length vals = length (rows d) \<Longrightarrow> derived_rows {name} d (setitem d name vals)"
  unfolding derived_rows_def setitem_def by (auto simp: set_zip)

lemma derived_map_column: "derived_rows {name} d (map_column name f d)"
  unfolding map_column_def by (rule derived_setitem) (simp add: column_def)

lemma derived_boolean_index: "derived_rows {} d (boolean_index d keep)"
  unfolding derived_rows_def boolean_index_def by (auto dest: set_zip_leftD)

lemma derived_dropna: "derived_rows {} d (dropna name d)"
  unfolding dropna_def by (rule derived_boolean_index)

lemma stays_refl: "n \<le> nxt s \<Longrightarrow> stays n s s" by (simp add: stays_def)

lemma stays_trans: "stays n s s1 \<Longrightarrow> stays n s1 s2 \<Longrightarrow> stays n s s2" by (simp add: stays_def)

lemma stays_mutate: "n \<le> c \<Longrightarrow> n \<le> nxt s \<Longrightarrow> stays n s (mutate s c f)"
  by (simp add: stays_def nxt_mutate objs_mutate)

lemma stays_alloc: "n \<le> nxt s \<Longrightarrow> stays n s (snd (alloc s d))"
  by (simp add: stays_def nxt_alloc objs_alloc)

lemma rows_boolean_index_map:
  "rows (boolean_index d (map f (column d name))) = filter (\<lambda>r. f (r name)) (rows d)"
proof -
  have "map fst (filter snd (zip rs (map (\<lambda>r. f (r name)) rs))) = filter (\<lambda>r. f (r name)) rs" for rs
    by (induction rs) auto
  then show ?thesis by (simp add: boolean_index_def column_def comp_def)
qed

lemma rows_setitem_map:
  "rows (setitem d name (map g (rows d))) = map (\<lambda>r. r(name := g r)) (rows d)"
proof -
  have "map (\<lambda>(r, v). r(name := v)) (zip rs (map g rs)) = map (\<lambda>r. r(name := g r)) rs" for rs
    by (induction rs) auto
  then show ?thesis by (simp add: setitem_def)
qed

lemma rows_setitem_column:
  "rows (setitem d name (map f (column d src))) = map (\<lambda>r. r(name := f (r src))) (rows d)"
  using rows_setitem_map[of d name "\<lambda>r. f (r src)"] by (simp add: column_def comp_def)

lemma columns_setitem: "set (columns (setitem d name vals)) = insert name (set (columns d))"
  by (auto simp: setitem_def)

lemma strptime_valid: "strptime_dmy x = Some d \<Longrightarrow> valid_date d"
  by (auto simp: strptime_dmy_def Let_def split: list.splits if_splits)

lemma to_datetime_valid: "wf_cell c \<Longrightarrow> \<not> isnull (to_datetime c) \<Longrightarrow> \<exists>d. to_datetime c = DtV d \<and> valid_date d"
  by (auto simp: to_datetime_def isnull_def wf_cell_def strptime_valid split: cell.splits option.splits)

lemma parse_dates_Inr:
  assumes "parse_dates s c = Inr (k, c', s')"
  shows "c' = nxt s" and "nxt s' = Suc (nxt s)"
    and "n \<le> c \<Longrightarrow> n \<le> nxt s \<Longrightarrow> stays n s s'"
    and "derived_rows {''date''} (fetch s c) (fetch s' c')"
    and "''date'' \<in> set (columns (fetch s c))"
    and "\<forall>r\<in>set (rows (fetch s c)). wf_cell (r ''date'') \<Longrightarrow>
         \<forall>r\<in>set (rows (fetch s' c')). \<exists>d. r ''date'' = DtV d \<and> valid_date d"
proof -
  from assms obtain dates where g: "getitem (fetch s c) ''date'' = Inr dates"
    by (auto simp: parse_dates_def split: sum.splits)
  then have dates: "dates = column (fetch s c) ''date''" and incol: "''date'' \<in> set (columns (fetch s c))"
    by (auto simp: getitem_def split: if_splits)
  define d1 where "d1 = setitem (fetch s c) ''date'' (map to_datetime dates)"
  define s1 where "s1 = mutate s c (\<lambda>d. setitem d ''date'' (map to_datetime dates))"
  have f1: "fetch s1 c = d1" by (simp add: s1_def d1_def fetch_mutate)
  from assms g have al: "alloc s1 (dropna ''date'' d1) = (c', s')"
    by (simp add: parse_dates_def Let_def s1_def[symmetric] f1 split: prod.splits)
  from alloc_eq[OF al] have c': "c' = nxt s1" and n': "nxt s' = Suc (nxt s1)"
    and f': "fetch s' c' = dropna ''date'' d1" and o': "\<forall>a. a \<noteq> nxt s1 \<longrightarrow> objs s' a = objs s1 a" by auto
  have ns1: "nxt s1 = nxt s" by (simp add: s1_def nxt_mutate)
  show "c' = nxt s" using c' ns1 by simp
  show "nxt s' = Suc (nxt s)" using n' ns1 by simp
  show "stays n s s'" if "n \<le> c" "n \<le> nxt s"
    using that o' n' ns1 by (auto simp: stays_def s1_def objs_mutate)
  have dr1: "derived_rows {''date''} (fetch s c) d1"
    unfolding d1_def by (rule derived_setitem) (simp add: dates column_def)
  have "derived_rows ({''date''} \<union> {}) (fetch s c) (dropna ''date'' d1)"
    by (rule derived_trans[OF dr1 derived_dropna])
  then show "derived_rows {''date''} (fetch s c) (fetch s' c')" by (simp add: f')
  show "''date'' \<in> set (columns (fetch s c))" by (rule incol)
  show "\<forall>r\<in>set (rows (fetch s' c')). \<exists>d. r ''date'' = DtV d \<and> valid_date d"
    if wf: "\<forall>r\<in>set (rows (fetch s c)). wf_cell (r ''date'')"
  proof
    fix r assume "r \<in> set (rows (fetch s' c'))"
    then have r: "r \<in> set (rows d1)" "\<not> isnull (r ''date'')"
      by (auto simp: f' dropna_def rows_boolean_index_map)
    from r(1) obtain r0 where r0: "r0 \<in> set (rows (fetch s c))" "r ''date'' = to_datetime (r0 ''date'')"
      by (auto simp: d1_def dates rows_setitem_column)
    with wf r(2) show "\<exists>d. r ''date'' = DtV d \<and> valid_date d"
      using to_datetime_valid[of "r0 ''date''"] by auto
  qed
qed

lemma rows_map_column: "rows (map_column name f d) = map (\<lambda>r. r(name := f (r name))) (rows d)"
  by (simp add: map_column_def rows_setitem_column)

lemma columns_map_column: "name \<in> set (columns d) \<Longrightarrow> columns (map_column name f d) = columns d"
  by (simp add: map_column_def setitem_def)

lemma clean_string_cols_spec:
  "nxt (fst (clean_string_cols raw s c cols)) = nxt s"
  "n \<le> c \<Longrightarrow> n \<le> nxt s \<Longrightarrow> stays n s (fst (clean_string_cols raw s c cols))"
  "derived_rows (set cols) (fetch s c) (fetch (fst (clean_string_cols raw s c cols)) c)"
proof -
  show nx: "nxt (fst (clean_string_cols raw s c cols)) = nxt s"
    by (induction cols arbitrary: s) (simp_all add: clean_string_cols.simps nxt_mutate)
  have o: "a \<noteq> c \<Longrightarrow> objs (fst (clean_string_cols raw s c cols)) a = objs s a" for a
    by (induction cols arbitrary: s) (simp_all add: clean_string_cols.simps objs_mutate)
  show "stays n s (fst (clean_string_cols raw s c cols))" if "n \<le> c" "n \<le> nxt s"
    using that o nx by (auto simp: stays_def)
  show "derived_rows (set cols) (fetch s c) (fetch (fst (clean_string_cols raw s c cols)) c)"
  proof (induction cols arbitrary: s)
    case Nil
    show ?case by (simp add: clean_string_cols.simps derived_refl)
  next
    case (Cons col cols)
    let ?s1 = "mutate s c (map_column col (str_map title \<circ> str_map strip))"
    consider (go) "col \<in> set (columns (fetch s c))" "has_str_accessor (column raw col)"
      | (raise) "col \<in> set (columns (fetch s c))" "\<not> has_str_accessor (column raw col)"
      | (skip) "col \<notin> set (columns (fetch s c))"
      by blast
    then show ?case
    proof cases
      case go
      have "derived_rows {col} (fetch s c) (fetch ?s1 c)"
        by (simp add: fetch_mutate derived_map_column)
      from derived_trans[OF this Cons.IH[of ?s1]] go show ?thesis
        by (simp add: clean_string_cols.simps)
    next
      case raise
      then show ?thesis by (simp add: clean_string_cols.simps derived_refl)
    next
      case skip
      with derived_mono[OF Cons.IH[of s], of "insert col (set cols)"] show ?thesis
        by (auto simp: clean_string_cols.simps)
    qed
  qed
qed

lemma pad_pincode_spec:
  assumes "pad_pincode P s c = (c', s')"
  shows "n \<le> c \<Longrightarrow> n \<le> nxt s \<Longrightarrow> stays n s s' \<and> n \<le> c'"
    and "derived_rows {''pincode''} (fetch s c) (fetch s' c')"
    and "''pincode'' \<in> set (columns (fetch s c)) \<Longrightarrow>
         \<forall>r\<in>set (rows (fetch s' c')). \<exists>p. r ''pincode'' = StrV p \<and> length p = 6"
proof -
  define d1 where "d1 = map_column ''pincode'' (str_map (zfill 6) \<circ> astype_str P) (fetch s c)"
  define s1 where "s1 = mutate s c (map_column ''pincode'' (str_map (zfill 6) \<circ> astype_str P))"
  have f1: "fetch s1 c = d1" by (simp add: s1_def d1_def fetch_mutate)
  have ns1: "nxt s1 = nxt s" by (simp add: s1_def nxt_mutate)
  show "stays n s s' \<and> n \<le> c'" if n: "n \<le> c" "n \<le> nxt s"
  proof (cases "''pincode'' \<in> set (columns (fetch s c))")
    case True
    with assms have al: "alloc s1 (boolean_index d1 (map (str_len_is 6) (column d1 ''pincode''))) = (c', s')"
      by (simp add: pad_pincode_def Let_def s1_def[symmetric] f1)
    from alloc_eq[OF al] n ns1 show ?thesis
      by (auto simp: stays_def s1_def objs_mutate)
  next
    case False
    with assms n show ?thesis by (simp add: pad_pincode_def stays_refl)
  qed
  show "derived_rows {''pincode''} (fetch s c) (fetch s' c')"
  proof (cases "''pincode'' \<in> set (columns (fetch s c))")
    case True
    with assms have al: "alloc s1 (boolean_index d1 (map (str_len_is 6) (column d1 ''pincode''))) = (c', s')"
      by (simp add: pad_pincode_def Let_def s1_def[symmetric] f1)
    from alloc_eq[OF al] have f': "fetch s' c' = boolean_index d1 (map (str_len_is 6) (column d1 ''pincode''))"
      by blast
    have "derived_rows ({''pincode''} \<union> {}) (fetch s c) (fetch s' c')"
      unfolding f' by (rule derived_trans[OF _ derived_boolean_index]) (simp add: d1_def derived_map_column)
    then show ?thesis by simp
  next
    case False
    with assms show ?thesis by (simp add: pad_pincode_def derived_refl)
  qed
  show "\<forall>r\<in>set (rows (fetch s' c')). \<exists>p. r ''pincode'' = StrV p \<and> length p = 6"
    if "''pincode'' \<in> set (columns (fetch s c))"
  proof -
    from that assms have al: "alloc s1 (boolean_index d1 (map (str_len_is 6) (column d1 ''pincode''))) = (c', s')"
      by (simp add: pad_pincode_def Let_def s1_def[symmetric] f1)
    from alloc_eq[OF al] have f': "fetch s' c' = boolean_index d1 (map (str_len_is 6) (column d1 ''pincode''))"
      by blast
    show ?thesis
      by (auto simp: f' rows_boolean_index_map str_len_is_def split: cell.splits)
  qed
qed

lemma length_to_numeric_col: "length (to_numeric_col P cs) = length cs"
  by (simp add: to_numeric_col_def unify_numeric_def)

lemma columns_count_col: "columns (count_col P col d) = columns d"
  by (simp add: count_col_def map_column_def setitem_def)

lemma derived_count_col: "derived_rows {col} d (count_col P col d)"
proof (cases "col \<in> set (columns d)")
  case True
  let ?d1 = "setitem d col (to_numeric_col P (column d col))"
  have 1: "derived_rows {col} d ?d1"
    by (rule derived_setitem) (simp add: length_to_numeric_col column_def)
  have 2: "derived_rows {col} ?d1 (map_column col (clip_lower0 \<circ> fillna (NumV 0)) ?d1)"
    by (rule derived_map_column)
  from derived_trans[OF 1 2] True show ?thesis by (simp add: count_col_def)
next
  case False
  then show ?thesis by (simp add: count_col_def derived_refl)
qed

lemma clean_count_cols_Cons:
  "clean_count_cols P s c (col # cols) = clean_count_cols P (count_step P col s c) c cols"
  by (simp add: clean_count_cols_def count_step_def)

lemma count_step_spec:
  "nxt (count_step P col s c) = nxt s"
  "a \<noteq> c \<Longrightarrow> objs (count_step P col s c) a = objs s a"
  "fetch (count_step P col s c) c = count_col P col (fetch s c)"
  by (simp_all add: count_step_def count_col_def Let_def nxt_mutate objs_mutate fetch_mutate)

lemma counts_frame_eq: "fetch (clean_count_cols P s c cols) c = counts_frame P cols (fetch s c)"
proof (induction cols arbitrary: s)
  case Nil
  show ?case by (simp add: clean_count_cols_def counts_frame_def)
next
  case (Cons col cols)
  from Cons[of "count_step P col s c"] show ?case
    by (simp add: clean_count_cols_Cons count_step_spec counts_frame_def)
qed

lemma columns_counts_frame: "columns (counts_frame P cols d) = columns d"
  unfolding counts_frame_def by (induction cols arbitrary: d) (simp_all add: columns_count_col)

lemma derived_counts_frame: "derived_rows (set cols) d (counts_frame P cols d)"
proof (induction cols arbitrary: d)
  case Nil
  show ?case by (simp add: counts_frame_def derived_refl)
next
  case (Cons col cols)
  from derived_trans[OF derived_count_col[of col d P] Cons[of "count_col P col d"]]
  show ?case by (simp add: counts_frame_def)
qed

lemma clean_count_cols_spec:
  "nxt (clean_count_cols P s c cols) = nxt s"
  "n \<le> c \<Longrightarrow> n \<le> nxt s \<Longrightarrow> stays n s (clean_count_cols P s c cols)"
  "columns (fetch (clean_count_cols P s c cols) c) = columns (fetch s c)"
  "derived_rows (set cols) (fetch s c) (fetch (clean_count_cols P s c cols) c)"
proof -
  show nx: "nxt (clean_count_cols P s c cols) = nxt s"
    by (induction cols arbitrary: s) (simp_all add: clean_count_cols_Cons count_step_spec, simp add: clean_count_cols_def)
  have o: "a \<noteq> c \<Longrightarrow> objs (clean_count_cols P s c cols) a = objs s a" for a
    by (induction cols arbitrary: s) (simp_all add: clean_count_cols_Cons count_step_spec, simp add: clean_count_cols_def)
  show "stays n s (clean_count_cols P s c cols)" if "n \<le> c" "n \<le> nxt s"
    using that o nx by (auto simp: stays_def)
  show "columns (fetch (clean_count_cols P s c cols) c) = columns (fetch s c)"
    by (simp add: counts_frame_eq columns_counts_frame)
  show "derived_rows (set cols) (fetch s c) (fetch (clean_count_cols P s c cols) c)"
    by (simp add: counts_frame_eq derived_counts_frame)
qed

lemma add_total_spec:
  "nxt (add_total s c cc tc) = nxt s"
  "n \<le> c \<Longrightarrow> n \<le> nxt s \<Longrightarrow> stays n s (add_total s c cc tc)"
  "derived_rows {tc} (fetch s c) (fetch (add_total s c cc tc) c)"
  "set cc \<subseteq> set (columns (fetch s c)) \<Longrightarrow> tc \<notin> set cc \<Longrightarrow>
     \<forall>r\<in>set (rows (fetch (add_total s c cc tc) c)). r tc = csum (map r cc)"
proof -
  show "nxt (add_total s c cc tc) = nxt s" by (simp add: add_total_def nxt_mutate)
  show "stays n s (add_total s c cc tc)" if "n \<le> c" "n \<le> nxt s"
    using that by (simp add: add_total_def stays_mutate stays_refl)
  show "derived_rows {tc} (fetch s c) (fetch (add_total s c cc tc) c)"
    by (simp add: add_total_def fetch_mutate derived_refl derived_setitem)
  show "\<forall>r\<in>set (rows (fetch (add_total s c cc tc) c)). r tc = csum (map r cc)"
    if "set cc \<subseteq> set (columns (fetch s c))" "tc \<notin> set cc"
  proof -
    from that(1) have "list_all (\<lambda>col. col \<in> set (columns (fetch s c))) cc"
      by (auto simp: list_all_iff)
    then have "rows (fetch (add_total s c cc tc) c)
        = map (\<lambda>r. r(tc := csum (map r cc))) (rows (fetch s c))"
      by (simp add: add_total_def fetch_mutate rows_setitem_map)
    moreover have "map (r(tc := v)) cc = map r cc" for r :: row and v
      using that(2) by (induction cc) auto
    ultimately show ?thesis by (simp del: map_eq_conv)
  qed
qed

lemma drop_zero_total_Inr:
  assumes "drop_zero_total s c tc = Inr (k, c', s')"
  shows "c' = nxt s" and "nxt s' = Suc (nxt s)"
    and "n \<le> nxt s \<Longrightarrow> stays n s s'"
    and "derived_rows {} (fetch s c) (fetch s' c')"
    and "tc \<in> set (columns (fetch s c))"
proof -
  from assms obtain totals positive where g: "getitem (fetch s c) tc = Inr totals"
    and al: "alloc s (boolean_index (fetch s c) positive) = (c', s')"
    by (auto simp: drop_zero_total_def Let_def split: sum.splits prod.splits)
  from alloc_eq[OF al] show "c' = nxt s" "nxt s' = Suc (nxt s)" by blast+
  from alloc_eq[OF al] show "stays n s s'" if "n \<le> nxt s" using that by (auto simp: stays_def)
  from alloc_eq[OF al] have "fetch s' c' = boolean_index (fetch s c) positive" by blast
  then show "derived_rows {} (fetch s c) (fetch s' c')" by (simp add: derived_boolean_index)
  from g show "tc \<in> set (columns (fetch s c))" by (auto simp: getitem_def split: if_splits)
qed

lemma derived_add_dt_column: "derived_rows {name} d (add_dt_column name f d)"
  unfolding add_dt_column_def by (rule derived_setitem) (simp add: column_def)

lemma add_temporal_features_spec:
  "nxt (add_temporal_features s c) = nxt s"
  "n \<le> c \<Longrightarrow> n \<le> nxt s \<Longrightarrow> stays n s (add_temporal_features s c)"
  "derived_rows {''year'', ''month'', ''day_of_week'', ''week_of_year''}
     (fetch s c) (fetch (add_temporal_features s c) c)"
proof -
  show "nxt (add_temporal_features s c) = nxt s"
    by (simp add: add_temporal_features_def nxt_mutate)
  show "stays n s (add_temporal_features s c)" if "n \<le> c" "n \<le> nxt s"
    using that by (simp add: add_temporal_features_def stays_def nxt_mutate objs_mutate)
  have "derived_rows ({''year''} \<union> ({''month''} \<union> ({''day_of_week''} \<union> {''week_of_year''})))
     (fetch s c) (fetch (add_temporal_features s c) c)"
  proof -
    have f: "fetch (add_temporal_features s c) c =
        add_dt_column ''week_of_year'' iso_week (add_dt_column ''day_of_week'' dayofweek
          (add_dt_column ''month'' dt_month (add_dt_column ''year'' dt_year (fetch s c))))"
      by (simp add: add_temporal_features_def fetch_mutate)
    show ?thesis unfolding f
      by (rule derived_trans[OF derived_add_dt_column derived_trans[OF derived_add_dt_column
            derived_trans[OF derived_add_dt_column derived_add_dt_column]]])
  qed
  then show "derived_rows {''year'', ''month'', ''day_of_week'', ''week_of_year''}
     (fetch s c) (fetch (add_temporal_features s c) c)"
    by (simp add: insert_commute)
qed

lemma copy_spec:
  "fst (copy s df) = nxt s" "nxt (snd (copy s df)) = Suc (nxt s)"
  "fetch (snd (copy s df)) (nxt s) = fetch s df"
  "stays (nxt s) s (snd (copy s df))"
  by (simp_all add: copy_def fst_alloc nxt_alloc fetch_alloc stays_def objs_alloc)

lemma clean_with_date_error:
  assumes "parse_dates (snd (copy s df)) (nxt s) = Inl e"
  shows "clean_with P cat cc tc zk (self, s) df = ((self, snd (copy s df)), Inl e)"
  using assms by (simp add: clean_with_def split_def copy_spec Let_def)

lemma clean_with_string_error:
  assumes "parse_dates (snd (copy s df)) (nxt s) = Inr (nbad, c1, s1)"
    and "clean_string_cols (fetch s df) s1 c1 [''state'', ''district''] = (s1', Some e)"
  shows "clean_with P cat cc tc zk (self, s) df = ((self, s1'), Inl e)"
  using assms by (simp add: clean_with_def split_def copy_spec Let_def)

lemma clean_with_total_error:
  assumes "parse_dates (snd (copy s df)) (nxt s) = Inr (nbad, c1, s1)"
    and "clean_string_cols (fetch s df) s1 c1 [''state'', ''district''] = (s1', None)"
    and "pad_pincode P s1' c1 = (c2, s2)"
    and "drop_zero_total (add_total (clean_count_cols P s2 c2 cc) c2 cc tc) c2 tc = Inl e"
  shows "clean_with P cat cc tc zk (self, s) df =
           ((self, add_total (clean_count_cols P s2 c2 cc) c2 cc tc), Inl e)"
  using assms by (simp add: clean_with_def split_def copy_spec Let_def)

lemma clean_with_success:
  assumes "parse_dates (snd (copy s df)) (nxt s) = Inr (nbad, c1, s1)"
    and "clean_string_cols (fetch s df) s1 c1 [''state'', ''district''] = (s1', None)"
    and "pad_pincode P s1' c1 = (c2, s2)"
    and "drop_zero_total (add_total (clean_count_cols P s2 c2 cc) c2 cc tc) c2 tc = Inr (zc, c3, s3)"
  shows "clean_with P cat cc tc zk (self, s) df =
           ((self\<lparr>cleaning_report := (cleaning_report self)(cat :=
                   Some [(''initial_rows'', int (len (fetch s df))),
                         (''final_rows'', int (len (fetch (add_temporal_features s3 c3) c3))),
                         (''rows_removed'', int (len (fetch s df))
                             - int (len (fetch (add_temporal_features s3 c3) c3))),
                         (''invalid_dates'', int nbad),
                         (zk, int zc)])\<rparr>,
             add_temporal_features s3 c3), Inr c3)"
  using assms by (simp add: clean_with_def split_def copy_spec Let_def)

lemma clean_with_cases:
  obtains
    (date_error) e where "parse_dates (snd (copy s df)) (nxt s) = Inl e"
  | (string_error) nbad c1 s1 s1' e where
      "parse_dates (snd (copy s df)) (nxt s) = Inr (nbad, c1, s1)"
      "clean_string_cols (fetch s df) s1 c1 [''state'', ''district''] = (s1', Some e)"
  | (total_error) nbad c1 s1 s1' c2 s2 e where
      "parse_dates (snd (copy s df)) (nxt s) = Inr (nbad, c1, s1)"
      "clean_string_cols (fetch s df) s1 c1 [''state'', ''district''] = (s1', None)"
      "pad_pincode P s1' c1 = (c2, s2)"
      "drop_zero_total (add_total (clean_count_cols P s2 c2 cc) c2 cc tc) c2 tc = Inl e"
  | (success) nbad c1 s1 s1' c2 s2 zc c3 s3 where
      "parse_dates (snd (copy s df)) (nxt s) = Inr (nbad, c1, s1)"
      "clean_string_cols (fetch s df) s1 c1 [''state'', ''district''] = (s1', None)"
      "pad_pincode P s1' c1 = (c2, s2)"
      "drop_zero_total (add_total (clean_count_cols P s2 c2 cc) c2 cc tc) c2 tc = Inr (zc, c3, s3)"
proof (cases "parse_dates (snd (copy s df)) (nxt s)")
  case (Inl e)
  then show ?thesis by (rule date_error)
next
  case (Inr t)
  obtain nbad c1 s1 where t: "t = (nbad, c1, s1)" by (cases t) auto
  obtain s1' eo where cs: "clean_string_cols (fetch s df) s1 c1 [''state'', ''district''] = (s1', eo)"
    by (metis surj_pair)
  show ?thesis
  proof (cases eo)
    case (Some e)
    with Inr t cs show ?thesis by (auto intro: string_error)
  next
    case None
    obtain c2 s2 where pp: "pad_pincode P s1' c1 = (c2, s2)"
      by (metis surj_pair)
    show ?thesis
    proof (cases "drop_zero_total (add_total (clean_count_cols P s2 c2 cc) c2 cc tc) c2 tc")
      case (Inl e)
      with Inr t cs None pp show ?thesis by (auto intro: total_error)
    next
      case dz: (Inr u)
      obtain zc c3 s3 where u: "u = (zc, c3, s3)" by (cases u) auto
      with Inr t cs None pp dz show ?thesis by (auto intro: success)
    qed
  qed
qed

lemma parse_dates_frame_eq:
  "parse_dates s c = Inl e \<Longrightarrow> parse_dates_frame (fetch s c) = Inl e"
  "parse_dates s c = Inr (k, c', s') \<Longrightarrow> parse_dates_frame (fetch s c) = Inr (k, fetch s' c')"
  by (auto simp: parse_dates_def parse_dates_frame_def getitem_def Let_def fetch_mutate
        map_column_def split: if_splits prod.splits dest: alloc_eq)

lemma strings_frame_both:
  "strings_frame raw cols (fetch s c) =
     (case snd (clean_string_cols raw s c cols) of
        None \<Rightarrow> Inr (fetch (fst (clean_string_cols raw s c cols)) c)
      | Some e \<Rightarrow> Inl e)"
proof (induction cols arbitrary: s)
  case Nil
  show ?case by (simp add: clean_string_cols.simps strings_frame.simps)
next
  case (Cons col cols)
  let ?s1 = "mutate s c (map_column col (str_map title \<circ> str_map strip))"
  have f: "fetch ?s1 c = map_column col (str_map title \<circ> str_map strip) (fetch s c)"
    by (simp add: fetch_mutate)
  from Cons[of ?s1] Cons[of s] show ?case
    by (simp add: clean_string_cols.simps strings_frame.simps f split: option.splits)
qed

lemma strings_frame_eq:
  "snd (clean_string_cols raw s c cols) = None \<Longrightarrow>
     strings_frame raw cols (fetch s c) = Inr (fetch (fst (clean_string_cols raw s c cols)) c)"
  "snd (clean_string_cols raw s c cols) = Some e \<Longrightarrow>
     strings_frame raw cols (fetch s c) = Inl e"
  by (simp_all add: strings_frame_both)

lemma pincode_frame_eq:
  "pad_pincode P s c = (c', s') \<Longrightarrow> fetch s' c' = pincode_frame P (fetch s c)"
  by (auto simp: pad_pincode_def pincode_frame_def Let_def fetch_mutate
        split: if_splits dest: alloc_eq)

lemma total_frame_eq: "fetch (add_total s c cc tc) c = total_frame cc tc (fetch s c)"
  by (simp add: add_total_def total_frame_def fetch_mutate)

lemma positive_frame_eq:
  "drop_zero_total s c tc = Inl e \<Longrightarrow> positive_frame tc (fetch s c) = Inl e"
  "drop_zero_total s c tc = Inr (k, c', s') \<Longrightarrow> positive_frame tc (fetch s c) = Inr (k, fetch s' c')"
  by (auto simp: drop_zero_total_def positive_frame_def Let_def
        split: sum.splits prod.splits dest: alloc_eq)

lemma temporal_frame_eq: "fetch (add_temporal_features s c) c = temporal_frame (fetch s c)"
  by (simp add: add_temporal_features_def temporal_frame_def fetch_mutate)

lemma stays_le: "stays n s s' \<Longrightarrow> n \<le> nxt s'" by (simp add: stays_def)

lemma clean_with_refines:
  assumes "clean_with P cat cc tc zk (self, s) df = ((self', s'), out)"
  shows "stays (nxt s) s s'"
    and "case clean_frame P cc tc (fetch s df) of
           Inl e \<Rightarrow> out = Inl e \<and> self' = self
         | Inr (nbad, nzero, d') \<Rightarrow>
             (\<exists>res. out = Inr res \<and> nxt s \<le> res \<and> fetch s' res = d' \<and>
                self' = self\<lparr>cleaning_report := (cleaning_report self)(cat :=
                   Some (report_entry zk (len (fetch s df)) (len d') nbad nzero))\<rparr>)"
proof -
  let ?n = "nxt s"
  let ?s0 = "snd (copy s df)"
  let ?raw = "fetch s df"
  have s0: "stays ?n s ?s0" "nxt ?s0 = Suc ?n" "fetch ?s0 ?n = fetch s df"
    by (simp_all add: copy_spec)
  have both: "stays (nxt s) s s' \<and>
     (case clean_frame P cc tc (fetch s df) of
           Inl e \<Rightarrow> out = Inl e \<and> self' = self
         | Inr (nbad, nzero, d') \<Rightarrow>
             (\<exists>res. out = Inr res \<and> nxt s \<le> res \<and> fetch s' res = d' \<and>
                self' = self\<lparr>cleaning_report := (cleaning_report self)(cat :=
                   Some (report_entry zk (len (fetch s df)) (len d') nbad nzero))\<rparr>))"
  proof (cases rule: clean_with_cases[where s=s and df=df and P=P and cc=cc and tc=tc])
    case (date_error e)
    from clean_with_date_error[OF date_error, of P cat cc tc zk self] assms
    have r: "self' = self" "s' = ?s0" "out = Inl e" by simp_all
    from parse_dates_frame_eq(1)[OF date_error] s0(3)
    have "clean_frame P cc tc (fetch s df) = Inl e" by (simp add: clean_frame_def)
    with r s0 show ?thesis by simp
  next
    case (string_error nbad c1 s1 s1' e)
    from clean_with_string_error[OF string_error, of P cat cc tc zk self] assms
    have r: "self' = self" "s' = s1'" "out = Inl e" by simp_all
    note pd = parse_dates_Inr[OF string_error(1)]
    have c1: "?n \<le> c1" using pd(1) s0(2) by simp
    have st1: "stays ?n ?s0 s1" using pd(3)[of ?n] s0(2) by simp
    have "stays ?n s1 (fst (clean_string_cols ?raw s1 c1 [''state'', ''district'']))"
      by (rule clean_string_cols_spec(2)[OF c1 stays_le[OF st1]])
    then have st1': "stays ?n s1 s1'"
      unfolding string_error(2) fst_conv .
    have st: "stays ?n s s1'"
      by (rule stays_trans[OF s0(1) stays_trans[OF st1 st1']])
    have f1: "parse_dates_frame (fetch s df) = Inr (nbad, fetch s1 c1)"
      using parse_dates_frame_eq(2)[OF string_error(1)] s0(3) by simp
    have "snd (clean_string_cols ?raw s1 c1 [''state'', ''district'']) = Some e"
      unfolding string_error(2) snd_conv ..
    then have f2: "strings_frame ?raw [''state'', ''district''] (fetch s1 c1) = Inl e"
      by (rule strings_frame_eq(2))
    have "clean_frame P cc tc (fetch s df) = Inl e"
      by (simp add: clean_frame_def f1 f2)
    with r st show ?thesis by simp
  next
    case (total_error nbad c1 s1 s1' c2 s2 e)
    let ?s3 = "clean_count_cols P s2 c2 cc"
    let ?s4 = "add_total ?s3 c2 cc tc"
    from clean_with_total_error[OF total_error, of cat zk self] assms
    have r: "self' = self" "s' = ?s4" "out = Inl e" by simp_all
    note pd = parse_dates_Inr[OF total_error(1)]
    have c1: "?n \<le> c1" using pd(1) s0(2) by simp
    have st1: "stays ?n ?s0 s1" using pd(3)[of ?n] s0(2) by simp
    have "stays ?n s1 (fst (clean_string_cols ?raw s1 c1 [''state'', ''district'']))"
      by (rule clean_string_cols_spec(2)[OF c1 stays_le[OF st1]])
    then have st1': "stays ?n s1 s1'"
      unfolding total_error(2) fst_conv .
    have n1': "?n \<le> nxt s1'" by (rule stays_le[OF st1'])
    from pad_pincode_spec(1)[OF total_error(3) c1 n1']
    have st2: "stays ?n s1' s2" and c2: "?n \<le> c2" by simp_all
    have st3: "stays ?n s2 ?s3"
      using clean_count_cols_spec(2)[of ?n c2 s2] c2 stays_le[OF st2] by simp
    have st4: "stays ?n ?s3 ?s4"
      using add_total_spec(2)[of ?n c2 ?s3] c2 stays_le[OF st3] by simp
    have st: "stays ?n s ?s4"
      by (rule stays_trans[OF s0(1) stays_trans[OF st1 stays_trans[OF st1' stays_trans[OF st2
            stays_trans[OF st3 st4]]]]])
    have f1: "parse_dates_frame (fetch s df) = Inr (nbad, fetch s1 c1)"
      using parse_dates_frame_eq(2)[OF total_error(1)] s0(3) by simp
    have "snd (clean_string_cols ?raw s1 c1 [''state'', ''district'']) = None"
      unfolding total_error(2) snd_conv ..
    from strings_frame_eq(1)[OF this]
    have f2: "strings_frame ?raw [''state'', ''district''] (fetch s1 c1) = Inr (fetch s1' c1)"
      unfolding total_error(2) fst_conv .
    have f4: "fetch ?s4 c2 = total_frame cc tc (counts_frame P cc (pincode_frame P (fetch s1' c1)))"
      by (simp add: total_frame_eq counts_frame_eq pincode_frame_eq[OF total_error(3)])
    have "clean_frame P cc tc (fetch s df) = Inl e"
      using positive_frame_eq(1)[OF total_error(4)] by (simp add: clean_frame_def f1 f2 f4)
    with r st show ?thesis by simp
  next
    case (success nbad c1 s1 s1' c2 s2 zc c3 s3)
    let ?s3 = "clean_count_cols P s2 c2 cc"
    let ?s4 = "add_total ?s3 c2 cc tc"
    let ?s6 = "add_temporal_features s3 c3"
    from clean_with_success[OF success, of cat zk self] assms
    have r: "s' = ?s6" "out = Inr c3"
      "self' = self\<lparr>cleaning_report := (cleaning_report self)(cat :=
          Some (report_entry zk (len (fetch s df)) (len (fetch ?s6 c3)) nbad zc))\<rparr>"
      by (simp_all add: report_entry_def)
    note pd = parse_dates_Inr[OF success(1)]
    have c1: "?n \<le> c1" using pd(1) s0(2) by simp
    have st1: "stays ?n ?s0 s1" using pd(3)[of ?n] s0(2) by simp
    have "stays ?n s1 (fst (clean_string_cols ?raw s1 c1 [''state'', ''district'']))"
      by (rule clean_string_cols_spec(2)[OF c1 stays_le[OF st1]])
    then have st1': "stays ?n s1 s1'"
      unfolding success(2) fst_conv .
    have n1': "?n \<le> nxt s1'" by (rule stays_le[OF st1'])
    from pad_pincode_spec(1)[OF success(3) c1 n1']
    have st2: "stays ?n s1' s2" and c2: "?n \<le> c2" by simp_all
    have st3: "stays ?n s2 ?s3"
      using clean_count_cols_spec(2)[of ?n c2 s2] c2 stays_le[OF st2] by simp
    have st4: "stays ?n ?s3 ?s4"
      using add_total_spec(2)[of ?n c2 ?s3] c2 stays_le[OF st3] by simp
    note dz = drop_zero_total_Inr[OF success(4)]
    have st5: "stays ?n ?s4 s3" using dz(3)[of ?n] stays_le[OF st4] by simp
    have c3: "?n \<le> c3" using dz(1) stays_le[OF st4] by simp
    have st6: "stays ?n s3 ?s6"
      using add_temporal_features_spec(2)[of ?n c3 s3] c3 stays_le[OF st5] by simp
    have st: "stays ?n s ?s6"
      by (rule stays_trans[OF s0(1) stays_trans[OF st1 stays_trans[OF st1' stays_trans[OF st2
            stays_trans[OF st3 stays_trans[OF st4 stays_trans[OF st5 st6]]]]]]])
    have f1: "parse_dates_frame (fetch s df) = Inr (nbad, fetch s1 c1)"
      using parse_dates_frame_eq(2)[OF success(1)] s0(3) by simp
    have "snd (clean_string_cols ?raw s1 c1 [''state'', ''district'']) = None"
      unfolding success(2) snd_conv ..
    from strings_frame_eq(1)[OF this]
    have f2: "strings_frame ?raw [''state'', ''district''] (fetch s1 c1) = Inr (fetch s1' c1)"
      unfolding success(2) fst_conv .
    have f4: "fetch ?s4 c2 = total_frame cc tc (counts_frame P cc (pincode_frame P (fetch s1' c1)))"
      by (simp add: total_frame_eq counts_frame_eq pincode_frame_eq[OF success(3)])
    have "clean_frame P cc tc (fetch s df) = Inr (nbad, zc, fetch ?s6 c3)"
      using positive_frame_eq(2)[OF success(4)]
      by (simp add: clean_frame_def f1 f2 f4 temporal_frame_eq)
    with r st c3 show ?thesis by simp
  qed
  from both show "stays (nxt s) s s'" by simp
  from both show "case clean_frame P cc tc (fetch s df) of
           Inl e \<Rightarrow> out = Inl e \<and> self' = self
         | Inr (nbad, nzero, d') \<Rightarrow>
             (\<exists>res. out = Inr res \<and> nxt s \<le> res \<and> fetch s' res = d' \<and>
                self' = self\<lparr>cleaning_report := (cleaning_report self)(cat :=
                   Some (report_entry zk (len (fetch s df)) (len d') nbad nzero))\<rparr>)" by simp
qed

section \<open>Running the frames\<close>

text \<open>Equations that compute the frame of a block row by row.\<close>

lemma mkrow_simps: "mkrow [] x = NA" "mkrow ((k, v) # kvs) x = (if x = k then v else mkrow kvs x)"
  by (simp_all add: mkrow_def)

lemma mkrow_upd: "(mkrow kvs)(k := v) = mkrow ((k, v) # kvs)"
  by (auto simp: fun_eq_iff mkrow_simps)

lemma repl_num: "replicate (numeral k) x = x # replicate (pred_numeral k) x"
  by (simp add: numeral_eq_Suc)

lemma frame_eq: "columns a = columns b \<Longrightarrow> rows a = rows b \<Longrightarrow> (a::dataframe) = b"
  by simp

lemma columns_boolean_index: "columns (boolean_index d k) = columns d"
  by (simp add: boolean_index_def)

lemma map_column_eval:
  "map_column name f d = \<lparr>columns = add_col name (columns d), rows = map (upd_cell name f) (rows d)\<rparr>"
proof (rule frame_eq)
  show "columns (map_column name f d) =
        columns \<lparr>columns = add_col name (columns d), rows = map (upd_cell name f) (rows d)\<rparr>"
    by (simp add: map_column_def setitem_def add_col_def)
  have "upd_cell name f = (\<lambda>r. r(name := f (r name)))" by (simp add: fun_eq_iff upd_cell_def)
  then show "rows (map_column name f d) =
        rows \<lparr>columns = add_col name (columns d), rows = map (upd_cell name f) (rows d)\<rparr>"
    by (simp add: rows_map_column)
qed

lemma rows_dropna: "rows (dropna name d) = filter (notnull_at name) (rows d)"
proof -
  have "notnull_at name = (\<lambda>r. \<not> isnull (r name))" by (simp add: fun_eq_iff notnull_at_def)
  then show ?thesis by (simp add: dropna_def rows_boolean_index_map)
qed

lemma columns_dropna: "columns (dropna name d) = columns d"
  by (simp add: dropna_def columns_boolean_index)

lemma count_true_map: "count_true (map f xs) = length (filter f xs)"
  by (induction xs) (simp_all add: count_true_def)

lemma parse_dates_frame_eval:
  "parse_dates_frame d =
     (if ''date'' \<in> set (columns d)
      then dates_result (columns d) (map (upd_cell ''date'' to_datetime) (rows d))
      else Inl (KeyError ''date''))"
proof (cases "''date'' \<in> set (columns d)")
  case True
  let ?d1 = "map_column ''date'' to_datetime d"
  have r1: "rows ?d1 = map (upd_cell ''date'' to_datetime) (rows d)" and c1: "columns ?d1 = columns d"
    using True by (simp_all add: map_column_eval add_col_def)
  have "dropna ''date'' ?d1 = \<lparr>columns = columns d,
          rows = filter (notnull_at ''date'') (map (upd_cell ''date'' to_datetime) (rows d))\<rparr>"
    by (rule frame_eq) (simp_all add: rows_dropna columns_dropna r1 c1)
  moreover have "column ?d1 ''date'' =
      map (cell_at ''date'') (map (upd_cell ''date'' to_datetime) (rows d))"
    unfolding column_def r1 by (simp add: cell_at_def)
  ultimately show ?thesis using True
    by (simp add: parse_dates_frame_def Let_def dates_result_def del: map_map)
next
  case False
  then show ?thesis by (simp add: parse_dates_frame_def)
qed

lemma rows_filter_column:
  "rows (boolean_index d (map f (column d name))) = filter (\<lambda>r. f (r name)) (rows d)"
  by (rule rows_boolean_index_map)

lemma pincode_frame_eval:
  "pincode_frame P d =
     (if ''pincode'' \<in> set (columns d)
      then \<lparr>columns = columns d,
            rows = filter (len6_at ''pincode'')
                     (map (upd_cell ''pincode'' (str_map (zfill 6) \<circ> astype_str P)) (rows d))\<rparr>
      else d)"
proof (cases "''pincode'' \<in> set (columns d)")
  case True
  let ?d1 = "map_column ''pincode'' (str_map (zfill 6) \<circ> astype_str P) d"
  have r1: "rows ?d1 = map (upd_cell ''pincode'' (str_map (zfill 6) \<circ> astype_str P)) (rows d)"
    and c1: "columns ?d1 = columns d"
    using True by (simp_all add: map_column_eval add_col_def)
  have l: "len6_at ''pincode'' = (\<lambda>r. str_len_is 6 (r ''pincode''))"
    by (simp add: fun_eq_iff len6_at_def)
  have "boolean_index ?d1 (map (str_len_is 6) (column ?d1 ''pincode'')) =
        \<lparr>columns = columns d, rows = filter (len6_at ''pincode'')
            (map (upd_cell ''pincode'' (str_map (zfill 6) \<circ> astype_str P)) (rows d))\<rparr>"
    by (rule frame_eq) (simp_all only: rows_boolean_index_map columns_boolean_index c1 r1 l
          dataframe.simps)
  with True show ?thesis by (simp add: pincode_frame_def Let_def)
next
  case False
  then show ?thesis by (simp add: pincode_frame_def)
qed

lemma counts_frame_eval:
  "counts_frame P [] d = d"
  "counts_frame P (col # cols) d = counts_frame P cols (count_col P col d)"
  by (simp_all add: counts_frame_def)

lemma rows_setitem_cells: "rows (setitem d name vals) = set_cells name (rows d) vals"
  by (simp add: setitem_def set_cells_def)

lemma set_cells_simps:
  "set_cells name [] vs = []"
  "set_cells name rs [] = []"
  "set_cells name (r # rs) (v # vs) = r(name := v) # set_cells name rs vs"
  by (simp_all add: set_cells_def)

lemma count_col_eval:
  "count_col P col d =
     (if col \<in> set (columns d)
      then \<lparr>columns = columns d,
            rows = map (upd_cell col (clip_lower0 \<circ> fillna (NumV 0)))
                     (set_cells col (rows d) (to_numeric_col P (map (cell_at col) (rows d))))\<rparr>
      else d)"
proof (cases "col \<in> set (columns d)")
  case True
  have c: "column d col = map (cell_at col) (rows d)"
    by (simp add: column_def cell_at_def)
  show ?thesis using True
    by (simp add: count_col_def map_column_eval rows_setitem_cells c add_col_def)
       (simp add: setitem_def)
next
  case False
  then show ?thesis by (simp add: count_col_def)
qed

lemma total_frame_eval:
  "total_frame cc tc d =
     (if list_all (\<lambda>col. col \<in> set (columns d)) cc
      then \<lparr>columns = add_col tc (columns d), rows = map (with_total cc tc) (rows d)\<rparr>
      else d)"
proof -
  have w: "with_total cc tc = (\<lambda>r. r(tc := csum (map r cc)))"
    by (simp add: fun_eq_iff with_total_def)
  show ?thesis
    by (auto intro!: frame_eq simp: total_frame_def rows_setitem_map w)
       (simp_all add: setitem_def add_col_def)
qed

lemma positive_frame_eval:
  "positive_frame tc d =
     (if tc \<in> set (columns d) then positive_result tc (columns d) (rows d)
      else Inl (KeyError tc))"
proof -
  have "column d tc = map (cell_at tc) (rows d)"
    by (simp add: column_def cell_at_def[abs_def])
  then show ?thesis
    by (simp add: positive_frame_def positive_result_def getitem_def boolean_index_def
          del: map_map split: sum.splits)
qed

lemma add_dt_column_eval:
  "add_dt_column name f d =
     \<lparr>columns = add_col name (columns d), rows = map (with_dt name f) (rows d)\<rparr>"
proof -
  have w: "with_dt name f = (\<lambda>r. r(name := dt_field f (r ''date'')))"
    by (simp add: fun_eq_iff with_dt_def)
  show ?thesis
    by (rule frame_eq) (simp_all add: add_dt_column_def rows_setitem_column w, simp add: setitem_def add_col_def)
qed

lemma upd_cell_mkrow: "upd_cell name f (mkrow kvs) = mkrow ((name, f (mkrow kvs name)) # kvs)"
  by (simp add: upd_cell_def mkrow_upd)

lemma with_total_mkrow: "with_total cc tc (mkrow kvs) = mkrow ((tc, csum (map (mkrow kvs) cc)) # kvs)"
  by (simp add: with_total_def mkrow_upd)

lemma with_dt_mkrow: "with_dt name f (mkrow kvs) = mkrow ((name, dt_field f (mkrow kvs ''date'')) # kvs)"
  by (simp add: with_dt_def mkrow_upd)

section \<open>What a cleaning call does\<close>











lemma clean_with_effect:
  assumes cw: "clean_with P cat cc tc zk (self, s) df = ((self', s'), out)"
  shows "(\<forall>a<nxt s. objs s' a = objs s a) \<and>
         (case out of
            Inl e \<Rightarrow> self' = self
          | Inr res \<Rightarrow> nxt s \<le> res \<and>
              (\<exists>nbad nzero. self' = self\<lparr>cleaning_report := (cleaning_report self)(cat :=
                   Some (report_entry zk (len (fetch s df)) (len (fetch s' res)) nbad nzero))\<rparr>))"
proof -
  note rf = clean_with_refines[OF cw]
  from rf(1) have st: "\<forall>a<nxt s. objs s' a = objs s a" by (simp add: stays_def)
  show ?thesis
  proof (cases "clean_frame P cc tc (fetch s df)")
    case (Inl e)
    with rf(2) st show ?thesis by simp
  next
    case (Inr t)
    obtain nbad nzero d' where "t = (nbad, nzero, d')" by (cases t) auto
    with Inr rf(2) st show ?thesis by (simp split: sum.splits) blast
  qed
qed

section \<open>Runs of the cleaning code\<close>

lemma char_of_eval:
  "char_of (n::nat) = Char (odd n) (odd (n div 2)) (odd (n div 4)) (odd (n div 8))
     (odd (n div 16)) (odd (n div 32)) (odd (n div 64)) (odd (n div 128))"
  by (simp add: char_of_def bit_iff_odd)

lemmas float_eval = round64_def ilog2_def pow2_def lg.simps round_half_even_def
  float_of_def of_float_def isnan_def float_sum_def wrap64_def int_of_def is_int_def
  int_to_float_def unify_numeric_def to_numeric_col_def numeric_or_na_def

lemmas cell_eval = char_of_eval upt_rec
  to_datetime_def strptime_dmy_def digits_upto_def is_digit_def nat_of_digits_def
  digit_val_def valid_date_def days_in_month_def is_leap_def isnull_def count_true_def
  day_text_def day_value_def in_timestamp_range_def
  str_map_def astype_str_def zfill_def str_len_is_def strip_def title_def is_space_def
  is_lower_def is_upper_def to_upper_def to_lower_def repl_num is_text_def has_str_accessor_def
  to_numeric_def fillna_def clip_lower0_def csum_def eq_zero_def gt_zero_def
  dt_field_def dayofweek_def iso_week_def ordinal_def days_before_year_def days_before_month_def
  iso_week1_monday_def Let_def float_eval

lemmas frame_eval = clean_frame_def parse_dates_frame_eval strings_frame.simps column_def
  pincode_frame_eval counts_frame_eval count_col_eval set_cells_simps total_frame_eval
  positive_frame_eval
  temporal_frame_def add_dt_column_eval map_column_eval add_col_def dates_result_def
  positive_result_def upd_cell_mkrow with_total_mkrow with_dt_mkrow mkrow_upd
  cell_at_def notnull_at_def len6_at_def enrolment_columns_def mkrow_simps view_def len_def

lemma short_pincode_frame:
  "\<exists>d. clean_frame P [''age_0_5'', ''age_5_17'', ''age_18_greater''] ''total_enrolments''
          short_pincode_table = Inr (1, 0, d) \<and> len d = 1 \<and>
       view [''date'', ''state'', ''district'', ''pincode'', ''age_0_5'', ''age_5_17'',
             ''age_18_greater'', ''total_enrolments'', ''year'', ''month'', ''day_of_week'',
             ''week_of_year''] d =
         [[DtV \<lparr>dt_year = 2024, dt_month = 3, dt_day = 15\<rparr>, StrV ''Delhi'', StrV ''New Delhi'',
           StrV ''001234'', NumV 1, NumV 2, NumV 3, NumV 6, IntV 2024, IntV 3, IntV 4, IntV 11]]"
  by (simp add: short_pincode_table_def frame_eval cell_eval)

lemma bad_pincode_frame:
  "\<exists>d. clean_frame P [''age_0_5'', ''age_5_17'', ''age_18_greater''] ''total_enrolments''
          bad_pincode_table = Inr (0, 0, d) \<and> len d = 2 \<and>
       view [''date'', ''pincode''] d =
         [[DtV \<lparr>dt_year = 2024, dt_month = 3, dt_day = 15\<rparr>, StrV ''ABCDEF''],
          [DtV \<lparr>dt_year = 2024, dt_month = 3, dt_day = 16\<rparr>, StrV ''000nan'']]"
  by (simp add: bad_pincode_table_def frame_eval cell_eval)


lemma fetch_store_of: "fetch (store_of d) 0 = d" "nxt (store_of d) = 1"
  by (simp_all add: fetch_def store_of_def)

lemma clean_with_run:
  assumes cf: "clean_frame P cc tc d = Inr (nbad, nzero, d')"
  shows "\<exists>s' res. clean_with P cat cc tc zk (self, store_of d) 0 =
           ((self\<lparr>cleaning_report := (cleaning_report self)(cat :=
                Some (report_entry zk (len d) (len d') nbad nzero))\<rparr>, s'), Inr res) \<and>
           fetch s' res = d'"
proof -
  obtain self' s' out where
    cw: "clean_with P cat cc tc zk (self, store_of d) 0 = ((self', s'), out)"
    by (metis surj_pair)
  from clean_with_refines(2)[OF cw] cf obtain res where
    "out = Inr res" "fetch s' res = d'"
    "self' = self\<lparr>cleaning_report := (cleaning_report self)(cat :=
                Some (report_entry zk (len d) (len d') nbad nzero))\<rparr>"
    by (auto simp: fetch_store_of)
  with cw show ?thesis by simp
qed

lemma short_pincode_run:
  "\<exists>self' s' res.
     clean_enrolment_data P (init, store_of short_pincode_table) 0 = ((self', s'), Inr res) \<and>
     cleaning_report self' ''enrolment'' =
       Some [(''initial_rows'', 2), (''final_rows'', 1), (''rows_removed'', 1),
             (''invalid_dates'', 1), (''zero_enrolments'', 0)] \<and>
     view [''date'', ''state'', ''district'', ''pincode'', ''age_0_5'', ''age_5_17'',
           ''age_18_greater'', ''total_enrolments'', ''year'', ''month'', ''day_of_week'',
           ''week_of_year''] (fetch s' res) =
       [[DtV \<lparr>dt_year = 2024, dt_month = 3, dt_day = 15\<rparr>, StrV ''Delhi'', StrV ''New Delhi'',
         StrV ''001234'', NumV 1, NumV 2, NumV 3, NumV 6, IntV 2024, IntV 3, IntV 4, IntV 11]]"
proof -
  from short_pincode_frame[of P] obtain d where
    cf: "clean_frame P [''age_0_5'', ''age_5_17'', ''age_18_greater''] ''total_enrolments''
           short_pincode_table = Inr (1, 0, d)" and l: "len d = 1"
    and v: "view [''date'', ''state'', ''district'', ''pincode'', ''age_0_5'', ''age_5_17'',
             ''age_18_greater'', ''total_enrolments'', ''year'', ''month'', ''day_of_week'',
             ''week_of_year''] d =
         [[DtV \<lparr>dt_year = 2024, dt_month = 3, dt_day = 15\<rparr>, StrV ''Delhi'', StrV ''New Delhi'',
           StrV ''001234'', NumV 1, NumV 2, NumV 3, NumV 6, IntV 2024, IntV 3, IntV 4, IntV 11]]"
    by blast
  have l0: "len short_pincode_table = 2" by (simp add: len_def short_pincode_table_def)
  from clean_with_run[OF cf, of "''enrolment''" "''zero_enrolments''" init] l l0 v
  show ?thesis unfolding clean_enrolment_data_def by (auto simp: report_entry_def)
qed


section \<open>The claims about the cleaning methods\<close>

text \<open>
  \<^bold>\<open>C10.\<close> Each cleaning method works on a copy. Whatever the table and the state, after
  \<^verbatim>\<open>clean_enrolment_data\<close>, \<^verbatim>\<open>clean_demographic_data\<close> or \<^verbatim>\<open>clean_biometric_data\<close> every
  object that existed before the call, the caller's table among them, is what it was;
  frames made by the call are new objects. When the call returns, the preprocessor
  differs from what it was in one place, the entry of the report under the category of
  the method; when the call raises, the preprocessor is what it was.
\<close>

theorem cleaning_works_on_a_copy:
  assumes "(clean, category, zero_key) \<in>
             {(clean_enrolment_data P, ''enrolment'', ''zero_enrolments''),
              (clean_demographic_data P, ''demographic'', ''zero_updates''),
              (clean_biometric_data P, ''biometric'', ''zero_updates'')}"
    and "clean (self, s) df = ((self', s'), out)"
  shows "(\<forall>a<nxt s. objs s' a = objs s a) \<and>
         (case out of
            Inl e \<Rightarrow> self' = self
          | Inr res \<Rightarrow> nxt s \<le> res \<and>
              (\<exists>nbad nzero. self' = self\<lparr>cleaning_report := (cleaning_report self)(category :=
                   Some (report_entry zero_key (len (fetch s df)) (len (fetch s' res))
                           nbad nzero))\<rparr>))"
proof -
  from assms(1) obtain cc tc where "clean = clean_with P category cc tc zero_key"
    by (auto simp: clean_enrolment_data_def clean_demographic_data_def clean_biometric_data_def)
  with assms(2) have "clean_with P category cc tc zero_key (self, s) df = ((self', s'), out)"
    by simp
  then show ?thesis by (rule clean_with_effect)
qed

theorem cleaning_works_on_a_copy_witness:
  "fetch (snd (fst (clean_enrolment_data plain (init, store_of short_pincode_table) 0))) 0
     = short_pincode_table \<and>
   (\<exists>res. snd (clean_enrolment_data plain (init, store_of short_pincode_table) 0) = Inr res \<and>
          1 \<le> res) \<and>
   report_of (clean_enrolment_data plain (init, store_of short_pincode_table) 0)
     ''enrolment'' ''rows_removed'' = Some 1 \<and>
   cleaning_report (fst (fst (clean_enrolment_data plain (init, store_of short_pincode_table) 0)))
     ''demographic'' = None"
proof -
  let ?R = "clean_enrolment_data plain (init, store_of short_pincode_table) 0"
  from short_pincode_run[of plain] obtain self' s' res where
    run: "?R = ((self', s'), Inr res)"
    and rep: "cleaning_report self' ''enrolment'' =
       Some [(''initial_rows'', 2), (''final_rows'', 1), (''rows_removed'', 1),
             (''invalid_dates'', 1), (''zero_enrolments'', 0)]"
    by blast
  have m: "(clean_enrolment_data plain, ''enrolment'', ''zero_enrolments'') \<in>
             {(clean_enrolment_data plain, ''enrolment'', ''zero_enrolments''),
              (clean_demographic_data plain, ''demographic'', ''zero_updates''),
              (clean_biometric_data plain, ''biometric'', ''zero_updates'')}"
    by simp
  from cleaning_works_on_a_copy[OF m run]
  have same: "\<forall>a<nxt (store_of short_pincode_table). objs s' a = objs (store_of short_pincode_table) a"
    and new: "nxt (store_of short_pincode_table) \<le> res"
    and "\<exists>nbad nzero. self' = init\<lparr>cleaning_report := (cleaning_report init)(''enrolment'' :=
           Some (report_entry ''zero_enrolments'' (len (fetch (store_of short_pincode_table) 0))
                   (len (fetch s' res)) nbad nzero))\<rparr>"
    by simp_all
  then have other: "cleaning_report self' ''demographic'' = None"
    by (auto simp: init_def)
  from same have "fetch s' 0 = short_pincode_table"
    by (simp add: fetch_def store_of_def)
  with new other rep run show ?thesis
    by (simp add: report_of_def fetch_store_of)
qed




text \<open>
  \<^bold>\<open>C1.\<close> Cleaning the table of two rows, one with the pincode \<^verbatim>\<open>1234\<close> and one with the date
  \<^verbatim>\<open>31-02-2024\<close>, drops the row with the invalid date only. The pincode of four characters
  is padded to \<^verbatim>\<open>001234\<close> and its row is kept, with its total and its temporal fields. The
  report of the category has five counters, none of them for pincodes: two initial rows,
  one final row, one row removed, one invalid date, no zero total.
\<close>

theorem short_pincode_is_padded_and_kept:
  "map_sum id (view [''date'', ''pincode'', ''total_enrolments''])
     (returned (clean_enrolment_data P (init, store_of short_pincode_table) 0))
     = Inr [[DtV \<lparr>dt_year = 2024, dt_month = 3, dt_day = 15\<rparr>, StrV ''001234'', NumV 6]] \<and>
   cleaning_report (fst (fst (clean_enrolment_data P (init, store_of short_pincode_table) 0)))
     ''enrolment''
     = Some [(''initial_rows'', 2), (''final_rows'', 1), (''rows_removed'', 1),
             (''invalid_dates'', 1), (''zero_enrolments'', 0)]"
proof -
  from short_pincode_run[of P] obtain self' s' res where
    run: "clean_enrolment_data P (init, store_of short_pincode_table) 0 = ((self', s'), Inr res)"
    and rep: "cleaning_report self' ''enrolment'' =
       Some [(''initial_rows'', 2), (''final_rows'', 1), (''rows_removed'', 1),
             (''invalid_dates'', 1), (''zero_enrolments'', 0)]"
    and v: "view [''date'', ''state'', ''district'', ''pincode'', ''age_0_5'', ''age_5_17'',
           ''age_18_greater'', ''total_enrolments'', ''year'', ''month'', ''day_of_week'',
           ''week_of_year''] (fetch s' res) =
       [[DtV \<lparr>dt_year = 2024, dt_month = 3, dt_day = 15\<rparr>, StrV ''Delhi'', StrV ''New Delhi'',
         StrV ''001234'', NumV 1, NumV 2, NumV 3, NumV 6, IntV 2024, IntV 3, IntV 4, IntV 11]]"
    by blast
  from v have "view [''date'', ''pincode'', ''total_enrolments''] (fetch s' res) =
      [[DtV \<lparr>dt_year = 2024, dt_month = 3, dt_day = 15\<rparr>, StrV ''001234'', NumV 6]]"
    by (auto simp: view_def map_eq_Cons_conv)
  with run rep show ?thesis by (simp add: returned_def)
qed

text \<open>
  The claim as the specification states it (both rows dropped, two rows removed) is false
  at this table: one row is returned and the report counts one removed row.
\<close>

theorem short_pincode_row_is_not_dropped:
  "map_sum id len (returned (clean_enrolment_data plain (init, store_of short_pincode_table) 0))
     = Inr 1 \<and>
   report_of (clean_enrolment_data plain (init, store_of short_pincode_table) 0)
     ''enrolment'' ''rows_removed'' = Some 1 \<and>
   report_of (clean_enrolment_data plain (init, store_of short_pincode_table) 0)
     ''enrolment'' ''rows_removed'' \<noteq> Some 2"
proof -
  from short_pincode_run[of plain] obtain self' s' res where
    run: "clean_enrolment_data plain (init, store_of short_pincode_table) 0
            = ((self', s'), Inr res)"
    and rep: "cleaning_report self' ''enrolment'' =
       Some [(''initial_rows'', 2), (''final_rows'', 1), (''rows_removed'', 1),
             (''invalid_dates'', 1), (''zero_enrolments'', 0)]"
    and v: "view [''date'', ''state'', ''district'', ''pincode'', ''age_0_5'', ''age_5_17'',
           ''age_18_greater'', ''total_enrolments'', ''year'', ''month'', ''day_of_week'',
           ''week_of_year''] (fetch s' res) =
       [[DtV \<lparr>dt_year = 2024, dt_month = 3, dt_day = 15\<rparr>, StrV ''Delhi'', StrV ''New Delhi'',
         StrV ''001234'', NumV 1, NumV 2, NumV 3, NumV 6, IntV 2024, IntV 3, IntV 4, IntV 11]]"
    by blast
  from v have "len (fetch s' res) = 1"
    by (auto simp: view_def len_def map_eq_Cons_conv)
  with run rep show ?thesis by (simp add: returned_def report_of_def)
qed

text \<open>
  \<^bold>\<open>C2.\<close> The rows of a cleaned table have a parsed date, and a pincode of six characters;
  the characters need not be digits. On a raw table with the pincode \<^verbatim>\<open>ABCDEF\<close> in one row
  and a missing pincode in another, both with a valid date, \<^verbatim>\<open>clean_enrolment_data\<close> returns
  both rows, with the pincodes \<^verbatim>\<open>ABCDEF\<close> and \<^verbatim>\<open>000nan\<close>.
\<close>

theorem pincode_filter_keeps_non_digits:
  "map_sum id (view [''date'', ''pincode''])
     (returned (clean_enrolment_data P (init, store_of bad_pincode_table) 0))
     = Inr [[DtV \<lparr>dt_year = 2024, dt_month = 3, dt_day = 15\<rparr>, StrV ''ABCDEF''],
            [DtV \<lparr>dt_year = 2024, dt_month = 3, dt_day = 16\<rparr>, StrV ''000nan'']] \<and>
   \<not> list_all is_digit ''ABCDEF'' \<and> \<not> list_all is_digit ''000nan''"
proof -
  from bad_pincode_frame[of P] obtain d where
    cf: "clean_frame P [''age_0_5'', ''age_5_17'', ''age_18_greater''] ''total_enrolments''
           bad_pincode_table = Inr (0, 0, d)"
    and v: "view [''date'', ''pincode''] d =
         [[DtV \<lparr>dt_year = 2024, dt_month = 3, dt_day = 15\<rparr>, StrV ''ABCDEF''],
          [DtV \<lparr>dt_year = 2024, dt_month = 3, dt_day = 16\<rparr>, StrV ''000nan'']]"
    by blast
  from clean_with_run[OF cf, of "''enrolment''" "''zero_enrolments''" init] v
  have "map_sum id (view [''date'', ''pincode''])
     (returned (clean_enrolment_data P (init, store_of bad_pincode_table) 0))
     = Inr [[DtV \<lparr>dt_year = 2024, dt_month = 3, dt_day = 15\<rparr>, StrV ''ABCDEF''],
            [DtV \<lparr>dt_year = 2024, dt_month = 3, dt_day = 16\<rparr>, StrV ''000nan'']]"
    unfolding clean_enrolment_data_def by (auto simp: returned_def)
  then show ?thesis by (simp add: is_digit_def)
qed

end
